theory Spec2Isabelle
  imports Complex_Main
begin

section \<open>Data model\<close>

text \<open>
  The repository holds two variants of one chat-platform music bot:
  \<^verbatim>\<open>OwnedBot.py\<close> (module-level functions and the global dictionaries
  \<^verbatim>\<open>song_queues\<close>, \<^verbatim>\<open>stop_flags\<close>, \<^verbatim>\<open>search_results\<close>) and
  \<^verbatim>\<open>OwnDMusicBot.2.0.py\<close> (the class \<^verbatim>\<open>MusicCog\<close>, whose queues are
  \<^verbatim>\<open>asyncio.Queue\<close> objects). Functions of the first variant keep their names;
  those of the second carry the prefix \<open>MusicCog_\<close>.

  Every command is one atomic step on the single-threaded event loop. The chat platform,
  the voice client and the extraction service are external collaborators: the voice
  client is modelled as far as the commands observe it, extraction is a parameter.
\<close>

type_synonym guild_id = nat
type_synonym user_id = nat

text \<open>A \<^verbatim>\<open>YTDLSource\<close> object: title, stream url and the gain of the volume transformer.\<close>

record track =
  title :: string
  url :: string
  volume :: real

text \<open>What \<^verbatim>\<open>ytdl.extract_info\<close> returns: a dictionary with \<^verbatim>\<open>"entries"\<close>
  (a playlist) or the data of one item; every item carries a title and a url.\<close>

record entry =
  e_title :: string
  e_url :: string

datatype info = Entries "entry list" | Single entry

text \<open>The Python exceptions the commands can meet.\<close>

datatype exn =
    AttributeError string
  | IndexError
  | ValueError string
  | ClientException string
  | DownloadError string
  | LoginFailure
  | OSError string

text \<open>The voice client of a guild: \<^verbatim>\<open>ctx.voice_client\<close> is \<^verbatim>\<open>None\<close> or a
  client with an optional audio player; a player that reached the end of its
  stream stays in the client as \<open>Ended\<close> until it is replaced or stopped.\<close>

datatype pstatus = Running | Paused | Ended

record voice_client =
  connected :: bool
  player :: "(track \<times> pstatus) option"

text \<open>What a command does to the outside: a message to the channel of the invoking
  guild, a call of the extraction service, the start of a stream on the voice client,
  and an error left to the command framework's default handler.\<close>

datatype cmd_error = NotOwner | CommandInvokeError exn

datatype event =
    Send guild_id string
  | Extract string
  | VoicePlay guild_id track
  | LoggedError cmd_error

record ctx =
  guild :: guild_id
  author :: user_id
  author_voice :: bool

text \<open>The process state. The 2.0 variant has no \<^verbatim>\<open>stop_flags\<close> and no cookie
  command: its functions never touch \<open>stop_flags\<close> and \<open>cookie_file\<close>. The field
  \<open>owner_id\<close> is the owner the command framework checks against: the
  \<^verbatim>\<open>owner_id\<close> given to the bot in 2.0, the owner of the application in
  \<^verbatim>\<open>OwnedBot.py\<close>.\<close>

record bot_state =
  song_queues :: "guild_id \<rightharpoonup> track list"
  stop_flags :: "guild_id \<rightharpoonup> bool"
  search_results :: "guild_id \<rightharpoonup> (string \<times> string) list"
  voice :: "guild_id \<rightharpoonup> voice_client"
  TOKEN :: string
  YOUTUBE_API_KEY :: string
  cookie_file :: "string option"
  owner_id :: user_id
  log :: "event list"

section \<open>Python primitives\<close>

definition quote :: string where
  "quote = [CHR 0x27]"

text \<open>\<^verbatim>\<open>str(e)\<close> of an exception.\<close>

fun str_exn :: "exn \<Rightarrow> string" where
  "str_exn (AttributeError a) =
     quote @ ''NoneType'' @ quote @ '' object has no attribute '' @ quote @ a @ quote"
| "str_exn IndexError = ''list index out of range''"
| "str_exn (ValueError m) = m"
| "str_exn (ClientException m) = m"
| "str_exn (DownloadError m) = m"
| "str_exn LoginFailure = ''Improper token has been passed.''"
| "str_exn (OSError m) = m"

text \<open>\<^verbatim>\<open>str.isdigit\<close> on code points below 256: the ASCII digits and the
  superscripts one, two and three. The empty string is not a digit string.\<close>

definition ascii_digit :: "char \<Rightarrow> bool" where
  "ascii_digit c = (c \<in> set ''0123456789'')"

definition isdigit_char :: "char \<Rightarrow> bool" where
  "isdigit_char c = (ascii_digit c \<or> c = CHR 0xB2 \<or> c = CHR 0xB3 \<or> c = CHR 0xB9)"

definition isdigit :: "string \<Rightarrow> bool" where
  "isdigit q = (q \<noteq> [] \<and> list_all isdigit_char q)"

definition digit_val :: "char \<Rightarrow> nat" where
  "digit_val c = of_char c - 48"

text \<open>\<^verbatim>\<open>str(n)\<close> of an integer, as the f-strings print it.\<close>

fun str_nat :: "nat \<Rightarrow> string" where
  "str_nat n =
     (if n < 10 then [''0123456789'' ! n]
      else str_nat (n div 10) @ [''0123456789'' ! (n mod 10)])"

definition str_int :: "int \<Rightarrow> string" where
  "str_int i = (if i < 0 then ''-'' @ str_nat (nat (- i)) else str_nat (nat i))"

text \<open>\<^verbatim>\<open>int(q)\<close> on a string that passed \<^verbatim>\<open>isdigit\<close>. The conversion reads
  the leading decimal digits: more than 4300 of them exceed the interpreter's limit for
  integer conversion, and a character left over after them (a superscript digit) makes
  the literal invalid; both raise \<^verbatim>\<open>ValueError\<close>.\<close>

definition py_int :: "string \<Rightarrow> exn + nat" where
  "py_int q =
     (let d = length (takeWhile ascii_digit q) in
      if d > 4300
      then Inl (ValueError (''Exceeds the limit (4300 digits) for integer string conversion: ''
                  @ ''value has '' @ str_nat d
                  @ '' digits; use sys.set_int_max_str_digits() to increase the limit''))
      else if d < length q
      then Inl (ValueError (''invalid literal for int() with base 10: '' @ quote @ q @ quote))
      else Inr (foldl (\<lambda>n c. 10 * n + digit_val c) 0 q))"

text \<open>\<^verbatim>\<open>xs[i]\<close>: a negative index counts from the end, an index out of range raises.\<close>

definition py_index :: "'a list \<Rightarrow> int \<Rightarrow> exn + 'a" where
  "py_index xs i =
     (if 0 \<le> i
      then (if nat i < length xs then Inr (xs ! nat i) else Inl IndexError)
      else (if nat (- i) \<le> length xs then Inr (xs ! (length xs - nat (- i)))
            else Inl IndexError))"

section \<open>Collaborators\<close>

definition send :: "guild_id \<Rightarrow> string \<Rightarrow> bot_state \<Rightarrow> bot_state" where
  "send g m s = s\<lparr>log := log s @ [Send g m]\<rparr>"

definition is_playing :: "voice_client \<Rightarrow> bool" where
  "is_playing vc = (case player vc of Some (_, Running) \<Rightarrow> True | _ \<Rightarrow> False)"

definition is_paused :: "voice_client \<Rightarrow> bool" where
  "is_paused vc = (case player vc of Some (_, Paused) \<Rightarrow> True | _ \<Rightarrow> False)"

text \<open>\<^verbatim>\<open>ctx.voice_client.play(player, after=...)\<close>: an attribute error on
  \<^verbatim>\<open>None\<close>, a client exception when the client is not connected or already plays.\<close>

definition voice_play :: "guild_id \<Rightarrow> track \<Rightarrow> bot_state \<Rightarrow> bot_state \<times> (exn + unit)" where
  "voice_play g p s =
     (case voice s g of
        None \<Rightarrow> (s, Inl (AttributeError ''play''))
      | Some vc \<Rightarrow>
          if \<not> connected vc then (s, Inl (ClientException ''Not connected to voice.''))
          else if is_playing vc then (s, Inl (ClientException ''Already playing audio.''))
          else (s\<lparr>voice := (voice s)(g \<mapsto> vc\<lparr>player := Some (p, Running)\<rparr>),
                  log := log s @ [VoicePlay g p]\<rparr>, Inr ()))"

text \<open>\<^verbatim>\<open>voice_client.stop()\<close>, \<^verbatim>\<open>pause()\<close> and \<^verbatim>\<open>resume()\<close> of a client
  that exists: stop drops the player, pause and resume act on a player that has not ended.\<close>

definition vc_stop :: "voice_client \<Rightarrow> voice_client" where
  "vc_stop vc = vc\<lparr>player := None\<rparr>"

definition vc_pause :: "voice_client \<Rightarrow> voice_client" where
  "vc_pause vc =
     (case player vc of
        Some (t, Running) \<Rightarrow> vc\<lparr>player := Some (t, Paused)\<rparr>
      | _ \<Rightarrow> vc)"

definition vc_resume :: "voice_client \<Rightarrow> voice_client" where
  "vc_resume vc =
     (case player vc of
        Some (t, Paused) \<Rightarrow> vc\<lparr>player := Some (t, Running)\<rparr>
      | _ \<Rightarrow> vc)"

text \<open>The stream of the running player reaches its end: the player stays, ended, and
  its \<^verbatim>\<open>after\<close> callback is due.\<close>

definition track_ends :: "guild_id \<Rightarrow> bot_state \<Rightarrow> bot_state" where
  "track_ends g s =
     (case voice s g of
        Some vc \<Rightarrow>
          (case player vc of
             Some (t, Running) \<Rightarrow> s\<lparr>voice := (voice s)(g \<mapsto> vc\<lparr>player := Some (t, Ended)\<rparr>)\<rparr>
           | _ \<Rightarrow> s)
      | None \<Rightarrow> s)"

section \<open>Resolution\<close>

text \<open>\<^verbatim>\<open>YTDLSource.__init__\<close> with its default \<^verbatim>\<open>volume=0.5\<close>.\<close>

definition YTDLSource :: "entry \<Rightarrow> track" where
  "YTDLSource d = \<lparr>title = e_title d, url = e_url d, volume = 0.5\<rparr>"

text \<open>\<^verbatim>\<open>YTDLSource.from_url\<close> (both variants, \<^verbatim>\<open>stream=True\<close>): the call of the
  extraction service is logged, its exception is passed on.\<close>

definition from_url ::
  "(string \<Rightarrow> exn + info) \<Rightarrow> string \<Rightarrow> bot_state \<Rightarrow> bot_state \<times> (exn + track list)" where
  "from_url ytdl u s =
     (let s1 = s\<lparr>log := log s @ [Extract u]\<rparr> in
      case ytdl u of
        Inl e \<Rightarrow> (s1, Inl e)
      | Inr (Entries es) \<Rightarrow> (s1, Inr (map YTDLSource es))
      | Inr (Single d) \<Rightarrow> (s1, Inr [YTDLSource d]))"

text \<open>The items of an extraction result, in the provider's order.\<close>

definition info_entries :: "info \<Rightarrow> entry list" where
  "info_entries data = (case data of Entries es \<Rightarrow> es | Single d \<Rightarrow> [d])"

section \<open>OwnedBot.py\<close>

text \<open>\<^verbatim>\<open>play_next\<close> (lines 138 to 148).\<close>

definition play_next :: "ctx \<Rightarrow> bot_state \<Rightarrow> bot_state \<times> (exn + unit)" where
  "play_next c s =
     (let server_id = guild c in
      if stop_flags s server_id = Some True
      then (s\<lparr>stop_flags := (stop_flags s)(server_id \<mapsto> False)\<rparr>, Inr ())
      else
        (case song_queues s server_id of
           Some (p # rest) \<Rightarrow>
             (case voice_play server_id p (s\<lparr>song_queues := (song_queues s)(server_id \<mapsto> rest)\<rparr>) of
                (s2, Inl e) \<Rightarrow> (s2, Inl e)
              | (s2, Inr _) \<Rightarrow> (send server_id (''**Now playing:** '' @ title p) s2, Inr ()))
         | _ \<Rightarrow> (send server_id ''Queue is empty.'' s, Inr ())))"

text \<open>The text of a search answer in \<^verbatim>\<open>search\<close> (lines 206 to 208): every
  numbered title ends its line.\<close>

definition search_response :: "(string \<times> string) list \<Rightarrow> string" where
  "search_response videos =
     ''**Search Results:**'' @ [CHR 0x0A] @
     concat (map (\<lambda>(i, (t, v)). str_nat (i + 1) @ ''. '' @ t @ [CHR 0x0A]) (enumerate 0 videos))"

text \<open>\<^verbatim>\<open>search\<close> (lines 176 to 213); \<open>provider\<close> is the search service, asked with
  the key and the query. The key is a string from the start, so the test for
  \<^verbatim>\<open>None\<close> never holds.\<close>

definition search ::
  "(string \<Rightarrow> string \<Rightarrow> exn + (string \<times> string) list) \<Rightarrow> ctx \<Rightarrow> string \<Rightarrow> bot_state \<Rightarrow> bot_state" where
  "search provider c query s =
     (case provider (YOUTUBE_API_KEY s) query of
        Inl e \<Rightarrow> send (guild c) (''An error occurred during search: '' @ str_exn e) s
      | Inr videos \<Rightarrow>
          if videos = [] then send (guild c) ''No songs found for that query.'' s
          else send (guild c) (search_response videos)
                 (s\<lparr>search_results := (search_results s)(guild c \<mapsto> videos)\<rparr>))"

text \<open>The ordinal branch of \<^verbatim>\<open>play\<close> (lines 225 to 231): \<open>Inl\<close> is a raised
  exception, \<open>Inr None\<close> the rejected selection, \<open>Inr (Some q)\<close> the query to resolve.\<close>

definition play_select :: "ctx \<Rightarrow> string \<Rightarrow> bot_state \<Rightarrow> exn + string option" where
  "play_select c query s =
     (if isdigit query then
        (case search_results s (guild c) of
           None \<Rightarrow> Inr None
         | Some videos \<Rightarrow>
             (case py_int query of
                Inl e \<Rightarrow> Inl e
              | Inr n \<Rightarrow>
                  if 1 \<le> n \<and> n \<le> length videos
                  then Inr (Some (''https://www.youtube.com/watch?v='' @ snd (videos ! (n - 1))))
                  else Inr None))
      else Inr (Some query))"

text \<open>The pending tracks of a guild, as the listing and the advance step read them:
  a guild without an entry has none.\<close>

definition pending :: "bot_state \<Rightarrow> guild_id \<Rightarrow> track list" where
  "pending s g = (case song_queues s g of None \<Rightarrow> [] | Some q \<Rightarrow> q)"

text \<open>\<^verbatim>\<open>song_queues[server_id].append(player)\<close>, and in the 2.0 variant
  \<^verbatim>\<open>await queue.put(player)\<close> on a queue without a size limit: the track goes to
  the back. Both callers have created the guild's entry before.\<close>

definition append_track :: "guild_id \<Rightarrow> track \<Rightarrow> bot_state \<Rightarrow> bot_state" where
  "append_track g p s = s\<lparr>song_queues := (song_queues s)(g \<mapsto> pending s g @ [p])\<rparr>"

text \<open>The loop \<^verbatim>\<open>for player in players\<close> around it.\<close>

fun enqueue :: "guild_id \<Rightarrow> track list \<Rightarrow> bot_state \<Rightarrow> bot_state" where
  "enqueue g [] s = s"
| "enqueue g (p # ps) s = enqueue g ps (append_track g p s)"

text \<open>The end of the body of \<^verbatim>\<open>play\<close> (lines 247 to 248).\<close>

definition play_start :: "ctx \<Rightarrow> bot_state \<Rightarrow> bot_state \<times> (exn + unit)" where
  "play_start c s =
     (case voice s (guild c) of
        None \<Rightarrow> (s, Inl (AttributeError ''is_playing''))
      | Some vc \<Rightarrow> if \<not> is_playing vc then play_next c s else (s, Inr ()))"

text \<open>The body of \<^verbatim>\<open>play\<close> under \<^verbatim>\<open>try\<close> (lines 224 to 248).\<close>

definition play_body ::
  "(string \<Rightarrow> exn + info) \<Rightarrow> ctx \<Rightarrow> string \<Rightarrow> bot_state \<Rightarrow> bot_state \<times> (exn + unit)" where
  "play_body ytdl c query s =
     (let server_id = guild c in
      case play_select c query s of
        Inl e \<Rightarrow> (s, Inl e)
      | Inr None \<Rightarrow> (send server_id ''Invalid number from search results.'' s, Inr ())
      | Inr (Some q) \<Rightarrow>
          (case from_url ytdl q s of
             (s1, Inl e) \<Rightarrow> (s1, Inl e)
           | (s1, Inr players) \<Rightarrow>
               if players = []
               then (send server_id ''Could not find any songs with that query.'' s1, Inr ())
               else
                 (let s2 = enqueue server_id players s1 in
                  if length players > 1
                  then play_start c
                         (send server_id
                            (''**Added '' @ str_nat (length players) @ '' songs to the queue.**'') s2)
                  else play_start c
                         (send server_id (''**Added to queue:** '' @ title (hd players)) s2))))"

text \<open>The start of \<^verbatim>\<open>play\<close> (lines 218 to 221): the guild's queue and stop flag
  are created on first use.\<close>

definition init_guild :: "ctx \<Rightarrow> bot_state \<Rightarrow> bot_state" where
  "init_guild c s =
     (if song_queues s (guild c) = None
      then s\<lparr>song_queues := (song_queues s)(guild c \<mapsto> []),
             stop_flags := (stop_flags s)(guild c \<mapsto> False)\<rparr>
      else s)"

text \<open>\<^verbatim>\<open>play\<close> (lines 216 to 251): every exception of the body ends in a message.\<close>

definition play :: "(string \<Rightarrow> exn + info) \<Rightarrow> ctx \<Rightarrow> string \<Rightarrow> bot_state \<Rightarrow> bot_state" where
  "play ytdl c query s =
     (case play_body ytdl c query (init_guild c s) of
        (s1, Inl e) \<Rightarrow> send (guild c) (''An error occurred: '' @ str_exn e) s1
      | (s1, Inr _) \<Rightarrow> s1)"

text \<open>\<^verbatim>\<open>pause\<close> (lines 255 to 261) and \<^verbatim>\<open>resume\<close> (lines 264 to 272).\<close>

definition pause :: "ctx \<Rightarrow> bot_state \<Rightarrow> bot_state \<times> (exn + unit)" where
  "pause c s =
     (case voice s (guild c) of
        None \<Rightarrow> (s, Inl (AttributeError ''is_playing''))
      | Some vc \<Rightarrow>
          if is_playing vc
          then (s\<lparr>voice := (voice s)(guild c \<mapsto> vc_pause vc)\<rparr>, Inr ())
          else (send (guild c) ''The bot is not playing anything at the moment.'' s, Inr ()))"

definition resume :: "ctx \<Rightarrow> bot_state \<Rightarrow> bot_state \<times> (exn + unit)" where
  "resume c s =
     (case voice s (guild c) of
        None \<Rightarrow> (s, Inl (AttributeError ''is_paused''))
      | Some vc \<Rightarrow>
          if is_paused vc
          then (s\<lparr>voice := (voice s)(guild c \<mapsto> vc_resume vc)\<rparr>, Inr ())
          else (send (guild c)
                  ''The bot was not playing anything before this. Use play_url command'' s, Inr ()))"

text \<open>The numbered titles of a listing:
  \<^verbatim>\<open>"\n".join([f"{i+1}. {player.title}" for i, player in enumerate(q)])\<close>.\<close>

fun join_lines :: "string list \<Rightarrow> string" where
  "join_lines [] = []"
| "join_lines [l] = l"
| "join_lines (l # ls) = l @ [CHR 0x0A] @ join_lines ls"

definition queue_list :: "track list \<Rightarrow> string" where
  "queue_list q =
     join_lines (map (\<lambda>(i, p). str_nat (i + 1) @ ''. '' @ title p) (enumerate 0 q))"

text \<open>\<^verbatim>\<open>queue\<close> (lines 279 to 286).\<close>

definition queue :: "ctx \<Rightarrow> bot_state \<Rightarrow> bot_state" where
  "queue c s =
     (case song_queues s (guild c) of
        Some (p # rest) \<Rightarrow>
          send (guild c) (''**Current Queue:**'' @ [CHR 0x0A] @ queue_list (p # rest)) s
      | _ \<Rightarrow> send (guild c) ''The queue is empty.'' s)"

text \<open>\<^verbatim>\<open>skip\<close> (lines 288 to 294).\<close>

definition skip :: "ctx \<Rightarrow> bot_state \<Rightarrow> bot_state \<times> (exn + unit)" where
  "skip c s =
     (case voice s (guild c) of
        None \<Rightarrow> (s, Inl (AttributeError ''is_playing''))
      | Some vc \<Rightarrow>
          if is_playing vc
          then (send (guild c) ''Skipped the song.''
                  (s\<lparr>voice := (voice s)(guild c \<mapsto> vc_stop vc)\<rparr>), Inr ())
          else (send (guild c) ''Not playing anything.'' s, Inr ()))"

text \<open>\<^verbatim>\<open>clear\<close> (lines 296 to 301).\<close>

definition clear :: "ctx \<Rightarrow> bot_state \<Rightarrow> bot_state" where
  "clear c s =
     (let server_id = guild c;
          s1 = (if song_queues s server_id \<noteq> None
                then s\<lparr>song_queues := (song_queues s)(server_id \<mapsto> [])\<rparr> else s)
      in send server_id ''Queue has been cleared.'' s1)"

text \<open>\<^verbatim>\<open>stop\<close> (lines 303 to 311).\<close>

definition stop :: "ctx \<Rightarrow> bot_state \<Rightarrow> bot_state \<times> (exn + unit)" where
  "stop c s =
     (let server_id = guild c;
          s1 = (if song_queues s server_id \<noteq> None
                then s\<lparr>song_queues := (song_queues s)(server_id \<mapsto> [])\<rparr> else s)
      in case voice s1 server_id of
           None \<Rightarrow> (s1, Inl (AttributeError ''is_playing''))
         | Some vc \<Rightarrow>
             (let s2 = (if is_playing vc
                        then s1\<lparr>stop_flags := (stop_flags s1)(server_id \<mapsto> True),
                                voice := (voice s1)(server_id \<mapsto> vc_stop vc)\<rparr>
                        else s1)
              in (send server_id ''Music stopped and queue cleared.'' s2, Inr ())))"

text \<open>The command framework runs an owner-only command: the check
  \<^verbatim>\<open>commands.is_owner()\<close> comes first; when it fails the body does not run and the
  error \<^verbatim>\<open>NotOwner\<close> goes to the command's error handler, or, when the command has
  none, to the default handler, which only logs it. An exception of the body takes the
  same way as \<^verbatim>\<open>CommandInvokeError\<close>.\<close>

definition on_error ::
  "(ctx \<Rightarrow> cmd_error \<Rightarrow> bot_state \<Rightarrow> bot_state) option \<Rightarrow> ctx \<Rightarrow> cmd_error \<Rightarrow> bot_state \<Rightarrow> bot_state" where
  "on_error handler c err s =
     (case handler of
        Some h \<Rightarrow> h c err s
      | None \<Rightarrow> s\<lparr>log := log s @ [LoggedError err]\<rparr>)"

definition invoke_owner_only ::
  "(ctx \<Rightarrow> bot_state \<Rightarrow> bot_state \<times> (exn + unit)) \<Rightarrow>
   (ctx \<Rightarrow> cmd_error \<Rightarrow> bot_state \<Rightarrow> bot_state) option \<Rightarrow> ctx \<Rightarrow> bot_state \<Rightarrow> bot_state" where
  "invoke_owner_only body handler c s =
     (if author c = owner_id s
      then (case body c s of
              (s1, Inl e) \<Rightarrow> on_error handler c (CommandInvokeError e) s1
            | (s1, Inr _) \<Rightarrow> s1)
      else on_error handler c NotOwner s)"

text \<open>\<^verbatim>\<open>set_token\<close> (lines 320 to 337); \<open>login\<close> is the test login of the new token.\<close>

definition set_token :: "(string \<Rightarrow> exn + unit) \<Rightarrow> string \<Rightarrow> ctx \<Rightarrow> bot_state \<Rightarrow> bot_state \<times> (exn + unit)" where
  "set_token login new_token c s =
     (case login new_token of
        Inr _ \<Rightarrow>
          (send (guild c)
             ''Token has been updated. Please restart the bot for the change to take effect.''
             (s\<lparr>TOKEN := new_token\<rparr>), Inr ())
      | Inl LoginFailure \<Rightarrow> (send (guild c) ''The provided token is invalid.'' s, Inr ())
      | Inl e \<Rightarrow> (s, Inl e))"

text \<open>\<^verbatim>\<open>set_token_error\<close>, \<^verbatim>\<open>set_yt_cookie_error\<close> and
  \<^verbatim>\<open>set_api_key_error\<close> (lines 339 to 342, 354 to 357, 366 to 369) have one body.\<close>

definition set_token_error :: "ctx \<Rightarrow> cmd_error \<Rightarrow> bot_state \<Rightarrow> bot_state" where
  "set_token_error c error s =
     (if error = NotOwner then send (guild c) ''You are not the owner of this bot.'' s else s)"

definition set_yt_cookie_error :: "ctx \<Rightarrow> cmd_error \<Rightarrow> bot_state \<Rightarrow> bot_state" where
  "set_yt_cookie_error c error s =
     (if error = NotOwner then send (guild c) ''You are not the owner of this bot.'' s else s)"

definition set_api_key_error :: "ctx \<Rightarrow> cmd_error \<Rightarrow> bot_state \<Rightarrow> bot_state" where
  "set_api_key_error c error s =
     (if error = NotOwner then send (guild c) ''You are not the owner of this bot.'' s else s)"

text \<open>\<^verbatim>\<open>set_yt_cookie\<close> (lines 344 to 352); \<open>write_file\<close> is the outcome of writing
  the cookie file.\<close>

definition set_yt_cookie :: "(string \<Rightarrow> exn + unit) \<Rightarrow> string \<Rightarrow> ctx \<Rightarrow> bot_state \<Rightarrow> bot_state \<times> (exn + unit)" where
  "set_yt_cookie write_file cookie_content c s =
     (case write_file cookie_content of
        Inr _ \<Rightarrow>
          (send (guild c)
             ''YouTube cookie has been set. Please restart the bot for the change to take effect.''
             (s\<lparr>cookie_file := Some cookie_content\<rparr>), Inr ())
      | Inl e \<Rightarrow>
          (send (guild c) (''An error occurred while setting the cookie: '' @ str_exn e) s, Inr ()))"

text \<open>\<^verbatim>\<open>set_api_key\<close> (lines 359 to 364).\<close>

definition set_api_key :: "string \<Rightarrow> ctx \<Rightarrow> bot_state \<Rightarrow> bot_state \<times> (exn + unit)" where
  "set_api_key api_key c s =
     (send (guild c) ''YouTube API key has been set.'' (s\<lparr>YOUTUBE_API_KEY := api_key\<rparr>), Inr ())"

text \<open>The three commands as the framework runs them.\<close>

definition cmd_set_token :: "(string \<Rightarrow> exn + unit) \<Rightarrow> string \<Rightarrow> ctx \<Rightarrow> bot_state \<Rightarrow> bot_state" where
  "cmd_set_token login new_token = invoke_owner_only (set_token login new_token) (Some set_token_error)"

definition cmd_set_yt_cookie :: "(string \<Rightarrow> exn + unit) \<Rightarrow> string \<Rightarrow> ctx \<Rightarrow> bot_state \<Rightarrow> bot_state" where
  "cmd_set_yt_cookie write_file cookie_content =
     invoke_owner_only (set_yt_cookie write_file cookie_content) (Some set_yt_cookie_error)"

definition cmd_set_api_key :: "string \<Rightarrow> ctx \<Rightarrow> bot_state \<Rightarrow> bot_state" where
  "cmd_set_api_key api_key = invoke_owner_only (set_api_key api_key) (Some set_api_key_error)"

section \<open>OwnDMusicBot.2.0.py\<close>

text \<open>\<^verbatim>\<open>MusicCog.get_queue\<close> (lines 106 to 109).\<close>

definition MusicCog_get_queue :: "ctx \<Rightarrow> bot_state \<Rightarrow> bot_state" where
  "MusicCog_get_queue c s =
     (if song_queues s (guild c) = None
      then s\<lparr>song_queues := (song_queues s)(guild c \<mapsto> [])\<rparr> else s)"

text \<open>\<^verbatim>\<open>MusicCog.join\<close> (lines 111 to 117) and \<^verbatim>\<open>MusicCog.leave\<close>
  (lines 119 to 122).\<close>

definition MusicCog_join :: "ctx \<Rightarrow> bot_state \<Rightarrow> bot_state" where
  "MusicCog_join c s =
     (if \<not> author_voice c then send (guild c) ''You are not connected to a voice channel.'' s
      else if voice s (guild c) \<noteq> None then s
      else s\<lparr>voice := (voice s)(guild c \<mapsto> \<lparr>connected = True, player = None\<rparr>)\<rparr>)"

definition MusicCog_leave :: "ctx \<Rightarrow> bot_state \<Rightarrow> bot_state" where
  "MusicCog_leave c s =
     (if voice s (guild c) \<noteq> None then s\<lparr>voice := (voice s)(guild c := None)\<rparr> else s)"

text \<open>\<^verbatim>\<open>MusicCog.search\<close> (lines 124 to 138).\<close>

definition MusicCog_search ::
  "(string \<Rightarrow> string \<Rightarrow> exn + (string \<times> string) list) \<Rightarrow> ctx \<Rightarrow> string \<Rightarrow> bot_state \<Rightarrow> bot_state" where
  "MusicCog_search provider c query s =
     (if YOUTUBE_API_KEY s = [] then send (guild c) ''YouTube API key is not set.'' s
      else
        (case provider (YOUTUBE_API_KEY s) query of
           Inl e \<Rightarrow> send (guild c) (''An error occurred during search: '' @ str_exn e) s
         | Inr videos \<Rightarrow>
             if videos = [] then send (guild c) ''No songs found.'' s
             else send (guild c)
                    (''**Search Results:**'' @ [CHR 0x0A] @
                     join_lines (map (\<lambda>(i, (t, v)). str_nat (i + 1) @ ''. '' @ t) (enumerate 0 videos)))
                    (s\<lparr>search_results := (search_results s)(guild c \<mapsto> videos)\<rparr>)))"

text \<open>\<^verbatim>\<open>MusicCog.play_next\<close> (lines 166 to 171).\<close>

definition MusicCog_play_next :: "ctx \<Rightarrow> bot_state \<Rightarrow> bot_state \<times> (exn + unit)" where
  "MusicCog_play_next c s =
     (let s1 = MusicCog_get_queue c s in
      case pending s1 (guild c) of
        p # rest \<Rightarrow>
          if voice s1 (guild c) \<noteq> None
          then (case voice_play (guild c) p (s1\<lparr>song_queues := (song_queues s1)(guild c \<mapsto> rest)\<rparr>) of
                  (s2, Inl e) \<Rightarrow> (s2, Inl e)
                | (s2, Inr _) \<Rightarrow> (send (guild c) (''**Now playing:** '' @ title p) s2, Inr ()))
          else (s1, Inr ())
      | [] \<Rightarrow> (s1, Inr ()))"

text \<open>The ordinal branch of \<^verbatim>\<open>MusicCog.play\<close> (lines 145 to 149).\<close>

definition MusicCog_play_select :: "ctx \<Rightarrow> string \<Rightarrow> bot_state \<Rightarrow> exn + string" where
  "MusicCog_play_select c query s =
     (if isdigit query then
        (case search_results s (guild c) of
           Some videos \<Rightarrow>
             (case py_int query of
                Inl e \<Rightarrow> Inl e
              | Inr n \<Rightarrow>
                  (case py_index videos (int n - 1) of
                     Inl e \<Rightarrow> Inl e
                   | Inr v \<Rightarrow> Inr (''https://www.youtube.com/watch?v='' @ snd v)))
         | None \<Rightarrow> Inr query)
      else Inr query)"

text \<open>The end of the body (lines 161 to 162).\<close>

definition MusicCog_play_start :: "ctx \<Rightarrow> bot_state \<Rightarrow> bot_state \<times> (exn + unit)" where
  "MusicCog_play_start c s =
     (case voice s (guild c) of
        None \<Rightarrow> (s, Inl (AttributeError ''is_playing''))
      | Some vc \<Rightarrow> if \<not> is_playing vc then MusicCog_play_next c s else (s, Inr ()))"

text \<open>The body of \<^verbatim>\<open>MusicCog.play\<close> under \<^verbatim>\<open>try\<close> (lines 145 to 162).\<close>

definition MusicCog_play_body ::
  "(string \<Rightarrow> exn + info) \<Rightarrow> ctx \<Rightarrow> string \<Rightarrow> bot_state \<Rightarrow> bot_state \<times> (exn + unit)" where
  "MusicCog_play_body ytdl c query s =
     (case MusicCog_play_select c query s of
        Inl e \<Rightarrow> (s, Inl e)
      | Inr u \<Rightarrow>
          (case from_url ytdl u s of
             (s1, Inl e) \<Rightarrow> (s1, Inl e)
           | (s1, Inr players) \<Rightarrow>
               (let s2 = enqueue (guild c) players s1 in
                if length players > 1
                then MusicCog_play_start c
                       (send (guild c)
                          (''**Added '' @ str_nat (length players) @ '' songs to the queue.**'') s2)
                else (case players of
                        [] \<Rightarrow> (s2, Inl IndexError)
                      | p # _ \<Rightarrow>
                          MusicCog_play_start c
                            (send (guild c) (''**Added to queue:** '' @ title p) s2)))))"

text \<open>\<^verbatim>\<open>MusicCog.play\<close> (lines 140 to 164).\<close>

definition MusicCog_play :: "(string \<Rightarrow> exn + info) \<Rightarrow> ctx \<Rightarrow> string \<Rightarrow> bot_state \<Rightarrow> bot_state" where
  "MusicCog_play ytdl c query s =
     (case MusicCog_play_body ytdl c query (MusicCog_get_queue c s) of
        (s1, Inl e) \<Rightarrow> send (guild c) (''An error occurred: '' @ str_exn e) s1
      | (s1, Inr _) \<Rightarrow> s1)"

text \<open>\<^verbatim>\<open>MusicCog.volume\<close> (lines 173 to 177); the setter of the volume transformer
  keeps the gain at or above zero.\<close>

definition MusicCog_volume :: "int \<Rightarrow> ctx \<Rightarrow> bot_state \<Rightarrow> bot_state" where
  "MusicCog_volume v c s =
     (case voice s (guild c) of
        Some vc \<Rightarrow>
          (case player vc of
             Some (t, st) \<Rightarrow>
               send (guild c) (''Volume set to '' @ str_int v @ ''%'')
                 (s\<lparr>voice := (voice s)(guild c \<mapsto>
                      vc\<lparr>player := Some (t\<lparr>volume := max (real_of_int v / 100) 0\<rparr>, st)\<rparr>)\<rparr>)
           | None \<Rightarrow> s)
      | None \<Rightarrow> s)"

text \<open>\<^verbatim>\<open>MusicCog.nowplaying\<close> (lines 179 to 184).\<close>

definition MusicCog_nowplaying :: "ctx \<Rightarrow> bot_state \<Rightarrow> bot_state" where
  "MusicCog_nowplaying c s =
     (case voice s (guild c) of
        Some vc \<Rightarrow>
          (case player vc of
             Some (t, st) \<Rightarrow> send (guild c) (''**Now playing:** '' @ title t) s
           | None \<Rightarrow> send (guild c) ''Not playing anything.'' s)
      | None \<Rightarrow> send (guild c) ''Not playing anything.'' s)"

text \<open>\<^verbatim>\<open>MusicCog.queue_info\<close> (lines 186 to 193).\<close>

definition MusicCog_queue_info :: "ctx \<Rightarrow> bot_state \<Rightarrow> bot_state" where
  "MusicCog_queue_info c s =
     (let s1 = MusicCog_get_queue c s in
      if pending s1 (guild c) \<noteq> []
      then send (guild c) (''**Current Queue:**'' @ [CHR 0x0A] @ queue_list (pending s1 (guild c))) s1
      else send (guild c) ''The queue is empty.'' s1)"

text \<open>\<^verbatim>\<open>MusicCog.skip\<close> (lines 195 to 199).\<close>

definition MusicCog_skip :: "ctx \<Rightarrow> bot_state \<Rightarrow> bot_state \<times> (exn + unit)" where
  "MusicCog_skip c s =
     (case voice s (guild c) of
        Some vc \<Rightarrow>
          if is_playing vc
          then (send (guild c) ''Skipped the song.''
                  (s\<lparr>voice := (voice s)(guild c \<mapsto> vc_stop vc)\<rparr>), Inr ())
          else (s, Inr ())
      | None \<Rightarrow> (s, Inr ()))"

text \<open>The loop \<^verbatim>\<open>while not queue.empty(): await queue.get()\<close> of
  \<^verbatim>\<open>MusicCog.stop\<close>: each round takes the front track away.\<close>

fun drain :: "track list \<Rightarrow> track list" where
  "drain [] = []"
| "drain (p # rest) = drain rest"

text \<open>\<^verbatim>\<open>MusicCog.stop\<close> (lines 201 to 208).\<close>

definition MusicCog_stop :: "ctx \<Rightarrow> bot_state \<Rightarrow> bot_state" where
  "MusicCog_stop c s =
     (let s1 = MusicCog_get_queue c s;
          s2 = s1\<lparr>song_queues := (song_queues s1)(guild c \<mapsto> drain (pending s1 (guild c)))\<rparr>;
          s3 = (case voice s2 (guild c) of
                  Some vc \<Rightarrow> s2\<lparr>voice := (voice s2)(guild c \<mapsto> vc_stop vc)\<rparr>
                | None \<Rightarrow> s2)
      in send (guild c) ''Music stopped and queue cleared.'' s3)"

text \<open>\<^verbatim>\<open>MusicCog.set_token\<close> (lines 210 to 215) and \<^verbatim>\<open>MusicCog.set_api_key\<close>
  (lines 217 to 222); neither has an error handler.\<close>

definition MusicCog_set_token :: "string \<Rightarrow> ctx \<Rightarrow> bot_state \<Rightarrow> bot_state \<times> (exn + unit)" where
  "MusicCog_set_token new_token c s =
     (send (guild c) ''Token updated. Please restart the bot.'' (s\<lparr>TOKEN := new_token\<rparr>), Inr ())"

definition MusicCog_set_api_key :: "string \<Rightarrow> ctx \<Rightarrow> bot_state \<Rightarrow> bot_state \<times> (exn + unit)" where
  "MusicCog_set_api_key api_key c s =
     (send (guild c) ''YouTube API key updated.'' (s\<lparr>YOUTUBE_API_KEY := api_key\<rparr>), Inr ())"

definition MusicCog_cmd_set_token :: "string \<Rightarrow> ctx \<Rightarrow> bot_state \<Rightarrow> bot_state" where
  "MusicCog_cmd_set_token new_token = invoke_owner_only (MusicCog_set_token new_token) None"

definition MusicCog_cmd_set_api_key :: "string \<Rightarrow> ctx \<Rightarrow> bot_state \<Rightarrow> bot_state" where
  "MusicCog_cmd_set_api_key api_key = invoke_owner_only (MusicCog_set_api_key api_key) None"

section \<open>Runs\<close>

text \<open>The \<^verbatim>\<open>after\<close> callback both variants hand to the voice client: it schedules
  the variant's advance step on the event loop; nobody reads the scheduled call's
  exception. A track's natural completion is the end of its stream followed by the
  callback.\<close>

definition after_callback :: "ctx \<Rightarrow> bot_state \<Rightarrow> bot_state" where
  "after_callback c s = fst (play_next c s)"

definition MusicCog_after_callback :: "ctx \<Rightarrow> bot_state \<Rightarrow> bot_state" where
  "MusicCog_after_callback c s = fst (MusicCog_play_next c s)"

definition completion :: "ctx \<Rightarrow> bot_state \<Rightarrow> bot_state" where
  "completion c s = after_callback c (track_ends (guild c) s)"

definition MusicCog_completion :: "ctx \<Rightarrow> bot_state \<Rightarrow> bot_state" where
  "MusicCog_completion c s = MusicCog_after_callback c (track_ends (guild c) s)"

text \<open>The tracks a log shows as started on the voice client of a guild, in order.\<close>

fun played :: "guild_id \<Rightarrow> event list \<Rightarrow> track list" where
  "played g [] = []"
| "played g (VoicePlay g' t # es) = (if g' = g then t # played g es else played g es)"
| "played g (e # es) = played g es"

text \<open>The messages a log shows as sent to a guild, in order.\<close>

fun sent :: "guild_id \<Rightarrow> event list \<Rightarrow> string list" where
  "sent g [] = []"
| "sent g (Send g' m # es) = (if g' = g then m # sent g es else sent g es)"
| "sent g (e # es) = sent g es"

text \<open>The urls and queries a log shows as handed to the extraction service.\<close>

fun extracted :: "event list \<Rightarrow> string list" where
  "extracted [] = []"
| "extracted (Extract u # es) = u # extracted es"
| "extracted (e # es) = extracted es"

text \<open>A run of queue operations of one guild: the enqueue loop and the natural
  completion of the current track.\<close>

datatype qop = Enq "track list" | Adv

fun enqs :: "qop list \<Rightarrow> track list" where
  "enqs [] = []"
| "enqs (Enq ts # ops) = ts @ enqs ops"
| "enqs (Adv # ops) = enqs ops"

fun run_ops :: "ctx \<Rightarrow> qop list \<Rightarrow> bot_state \<Rightarrow> bot_state" where
  "run_ops c [] s = s"
| "run_ops c (Enq ts # ops) s = run_ops c ops (enqueue (guild c) ts s)"
| "run_ops c (Adv # ops) s = run_ops c ops (completion c s)"

fun MusicCog_run_ops :: "ctx \<Rightarrow> qop list \<Rightarrow> bot_state \<Rightarrow> bot_state" where
  "MusicCog_run_ops c [] s = s"
| "MusicCog_run_ops c (Enq ts # ops) s = MusicCog_run_ops c ops (enqueue (guild c) ts (MusicCog_get_queue c s))"
| "MusicCog_run_ops c (Adv # ops) s = MusicCog_run_ops c ops (MusicCog_completion c s)"

text \<open>A run of the 2.0 variant: its commands, the end of a stream and the callback, in
  any order.\<close>

datatype step =
    Join ctx
  | Leave ctx
  | Search "string \<Rightarrow> string \<Rightarrow> exn + (string \<times> string) list" ctx string
  | Play "string \<Rightarrow> exn + info" ctx string
  | Volume int ctx
  | NowPlaying ctx
  | QueueInfo ctx
  | Skip ctx
  | Stop ctx
  | SetToken string ctx
  | SetApiKey string ctx
  | TrackEnds guild_id
  | AfterCallback ctx

fun MusicCog_exec :: "step \<Rightarrow> bot_state \<Rightarrow> bot_state" where
  "MusicCog_exec (Join c) s = MusicCog_join c s"
| "MusicCog_exec (Leave c) s = MusicCog_leave c s"
| "MusicCog_exec (Search provider c q) s = MusicCog_search provider c q s"
| "MusicCog_exec (Play ytdl c q) s = MusicCog_play ytdl c q s"
| "MusicCog_exec (Volume v c) s = MusicCog_volume v c s"
| "MusicCog_exec (NowPlaying c) s = MusicCog_nowplaying c s"
| "MusicCog_exec (QueueInfo c) s = MusicCog_queue_info c s"
| "MusicCog_exec (Skip c) s = fst (MusicCog_skip c s)"
| "MusicCog_exec (Stop c) s = MusicCog_stop c s"
| "MusicCog_exec (SetToken tok c) s = MusicCog_cmd_set_token tok c s"
| "MusicCog_exec (SetApiKey k c) s = MusicCog_cmd_set_api_key k c s"
| "MusicCog_exec (TrackEnds g) s = track_ends g s"
| "MusicCog_exec (AfterCallback c) s = MusicCog_after_callback c s"

fun MusicCog_run :: "step list \<Rightarrow> bot_state \<Rightarrow> bot_state" where
  "MusicCog_run [] s = s"
| "MusicCog_run (x # xs) s = MusicCog_run xs (MusicCog_exec x s)"

text \<open>Every pending track of every guild has the default gain.\<close>

definition queued_default :: "bot_state \<Rightarrow> bool" where
  "queued_default s = (\<forall>g. \<forall>t \<in> set (pending s g). volume t = 0.5)"

text \<open>From \<open>s\<close> to \<open>s'\<close> the log has only grown, every track started in between
  had the default gain at its start, and the pending tracks of \<open>s'\<close> have it.\<close>

definition extends_default :: "bot_state \<Rightarrow> bot_state \<Rightarrow> bool" where
  "extends_default s s' =
     (queued_default s'
      \<and> (\<exists>es. log s' = log s @ es \<and> (\<forall>g. \<forall>t \<in> set (played g es). volume t = 0.5)))"

section \<open>Example inputs\<close>

definition ctx1 :: ctx where
  "ctx1 = \<lparr>guild = 1, author = 7, author_voice = True\<rparr>"

definition entryA :: entry where
  "entryA = \<lparr>e_title = ''A'', e_url = ''http://a''\<rparr>"

definition entryB :: entry where
  "entryB = \<lparr>e_title = ''B'', e_url = ''http://b''\<rparr>"

definition entryC :: entry where
  "entryC = \<lparr>e_title = ''C'', e_url = ''http://c''\<rparr>"

definition ytdl_single :: "string \<Rightarrow> exn + info" where
  "ytdl_single u = Inr (Single entryA)"

definition ytdl_playlist :: "string \<Rightarrow> exn + info" where
  "ytdl_playlist u = Inr (Entries [entryA, entryB, entryC])"

text \<open>The state of a fresh process, owned by user 42.\<close>

definition start :: bot_state where
  "start = \<lparr>song_queues = Map.empty, stop_flags = Map.empty, search_results = Map.empty,
            voice = Map.empty, TOKEN = ''DISCORD_TOKEN_HERE'', YOUTUBE_API_KEY = ''API_KEY_HERE'',
            cookie_file = None, owner_id = 42, log = []\<rparr>"

text \<open>The bot has joined a voice channel of guild 1 and plays nothing.\<close>

definition joined :: bot_state where
  "joined = start\<lparr>voice := [1 \<mapsto> \<lparr>connected = True, player = None\<rparr>]\<rparr>"

text \<open>Guild 1 has the two results of a search.\<close>

definition searched :: bot_state where
  "searched = joined\<lparr>search_results := [1 \<mapsto> [(''first'', ''id1''), (''second'', ''id2'')]]\<rparr>"

text \<open>Guild 1 plays track A while B and C wait.\<close>

definition playingA :: bot_state where
  "playingA = start\<lparr>
     song_queues := [1 \<mapsto> [YTDLSource entryB, YTDLSource entryC]],
     stop_flags := [1 \<mapsto> False],
     voice := [1 \<mapsto> \<lparr>connected = True, player = Some (YTDLSource entryA, Running)\<rparr>]\<rparr>"

definition login_ok :: "string \<Rightarrow> exn + unit" where
  "login_ok tok = Inr ()"

definition write_ok :: "string \<Rightarrow> exn + unit" where
  "write_ok content = Inr ()"

section \<open>Frame lemmas\<close>

lemma pending_frame [simp]:
  "pending (s\<lparr>log := l\<rparr>) = pending s"
  "pending (s\<lparr>voice := v\<rparr>) = pending s"
  "pending (s\<lparr>stop_flags := f\<rparr>) = pending s"
  "pending (s\<lparr>search_results := r\<rparr>) = pending s"
  "pending (s\<lparr>TOKEN := k\<rparr>) = pending s"
  "pending (s\<lparr>YOUTUBE_API_KEY := k\<rparr>) = pending s"
  "pending (s\<lparr>cookie_file := cf\<rparr>) = pending s"
  "pending (send g m s) = pending s"
  by (simp_all add: pending_def fun_eq_iff send_def)

lemma pending_update [simp]:
  "pending (s\<lparr>song_queues := m(g \<mapsto> q)\<rparr>) g = q"
  "g' \<noteq> g \<Longrightarrow> pending (s\<lparr>song_queues := (song_queues s)(g \<mapsto> q)\<rparr>) g' = pending s g'"
  by (simp_all add: pending_def)

lemma send_frame [simp]:
  "voice (send g m s) = voice s"
  "song_queues (send g m s) = song_queues s"
  "stop_flags (send g m s) = stop_flags s"
  "search_results (send g m s) = search_results s"
  "log (send g m s) = log s @ [Send g m]"
  by (simp_all add: send_def)

lemma pending_append_track [simp]: "pending (append_track g p s) g = pending s g @ [p]"
  by (simp add: append_track_def pending_def)

lemma pending_append_track_other [simp]: "g' \<noteq> g \<Longrightarrow> pending (append_track g p s) g' = pending s g'"
  by (simp add: append_track_def pending_def)

lemma append_track_frame [simp]:
  "voice (append_track g p s) = voice s"
  "log (append_track g p s) = log s"
  "stop_flags (append_track g p s) = stop_flags s"
  "search_results (append_track g p s) = search_results s"
  "TOKEN (append_track g p s) = TOKEN s"
  "YOUTUBE_API_KEY (append_track g p s) = YOUTUBE_API_KEY s"
  by (simp_all add: append_track_def)

lemma pending_enqueue [simp]: "pending (enqueue g ts s) g = pending s g @ ts"
  by (induction ts arbitrary: s) simp_all

lemma pending_enqueue_other [simp]: "g' \<noteq> g \<Longrightarrow> pending (enqueue g ts s) g' = pending s g'"
  by (induction ts arbitrary: s) simp_all

lemma enqueue_frame [simp]:
  "voice (enqueue g ts s) = voice s"
  "log (enqueue g ts s) = log s"
  "stop_flags (enqueue g ts s) = stop_flags s"
  "search_results (enqueue g ts s) = search_results s"
  "TOKEN (enqueue g ts s) = TOKEN s"
  "YOUTUBE_API_KEY (enqueue g ts s) = YOUTUBE_API_KEY s"
  by (induction ts arbitrary: s, simp_all)+

lemma get_queue_frame [simp]:
  "pending (MusicCog_get_queue c s) g = pending s g"
  "voice (MusicCog_get_queue c s) = voice s"
  "log (MusicCog_get_queue c s) = log s"
  "search_results (MusicCog_get_queue c s) = search_results s"
  by (simp_all add: MusicCog_get_queue_def pending_def)

lemma select_get_queue [simp]:
  "MusicCog_play_select c q (MusicCog_get_queue c s) = MusicCog_play_select c q s"
  by (simp add: MusicCog_play_select_def)

lemma from_url_Inr:
  "ytdl u = Inr data \<Longrightarrow>
   from_url ytdl u s = (s\<lparr>log := log s @ [Extract u]\<rparr>, Inr (map YTDLSource (info_entries data)))"
  by (cases data) (simp_all add: from_url_def info_entries_def)

section \<open>Play without a voice connection (2.0)\<close>

text \<open>
  Claim C10. In the 2.0 variant, a \<^verbatim>\<open>play\<close> whose query resolves to at least one
  track while the guild has no voice client appends every resolved track to the guild's
  queue and then reports an error (the attribute error of
  \<^verbatim>\<open>ctx.voice_client.is_playing()\<close>): the tracks stay queued, the error message
  is the last thing the command does.
\<close>

theorem play_without_voice_keeps_tracks:
  assumes "voice s (guild c) = None"
    and "MusicCog_play_select c query s = Inr u"
    and "ytdl u = Inr data"
    and "info_entries data \<noteq> []"
  shows "pending (MusicCog_play ytdl c query s) (guild c)
           = pending s (guild c) @ map YTDLSource (info_entries data)
         \<and> last (log (MusicCog_play ytdl c query s))
           = Send (guild c) (''An error occurred: '' @ str_exn (AttributeError ''is_playing''))"
proof -
  let ?s0 = "MusicCog_get_queue c s"
  let ?s1 = "?s0\<lparr>log := log ?s0 @ [Extract u]\<rparr>"
  from assms(4) obtain p ps where ps: "map YTDLSource (info_entries data) = p # ps"
    by (cases "info_entries data") auto
  have fu: "from_url ytdl u ?s0 = (?s1, Inr (p # ps))"
    using from_url_Inr[of ytdl u data ?s0, OF assms(3)] ps by simp
  define m where "m = (if length (p # ps) > 1
      then ''**Added '' @ str_nat (length (p # ps)) @ '' songs to the queue.**''
      else ''**Added to queue:** '' @ title p)"
  define s3 where "s3 = send (guild c) m (enqueue (guild c) (p # ps) ?s1)"
  have v3: "voice s3 (guild c) = None"
    using assms(1) by (simp add: s3_def del: enqueue.simps)
  have start: "MusicCog_play_start c s3 = (s3, Inl (AttributeError ''is_playing''))"
    by (simp add: MusicCog_play_start_def v3)
  have body: "MusicCog_play_body ytdl c query ?s0 = (s3, Inl (AttributeError ''is_playing''))"
    using start
    by (cases "ps = []")
       (simp_all add: MusicCog_play_body_def assms(2) fu Let_def m_def s3_def
        del: enqueue.simps str_nat.simps)
  have res: "MusicCog_play ytdl c query s
      = send (guild c) (''An error occurred: '' @ str_exn (AttributeError ''is_playing'')) s3"
    by (simp add: MusicCog_play_def body)
  have p3: "pending s3 (guild c) = pending s (guild c) @ (p # ps)"
    by (simp add: s3_def del: enqueue.simps)
  show ?thesis
    unfolding res ps using p3 by simp
qed

theorem play_without_voice_keeps_tracks_witness:
  "voice start (guild ctx1) = None
   \<and> MusicCog_play_select ctx1 ''song'' start = Inr ''song''
   \<and> ytdl_single ''song'' = Inr (Single entryA)
   \<and> info_entries (Single entryA) \<noteq> []
   \<and> pending (MusicCog_play ytdl_single ctx1 ''song'' start) (guild ctx1) = [YTDLSource entryA]
   \<and> last (log (MusicCog_play ytdl_single ctx1 ''song'' start))
       = Send (guild ctx1) (''An error occurred: '' @ str_exn (AttributeError ''is_playing''))"
proof -
  have h1: "voice start (guild ctx1) = None"
    by (simp add: start_def)
  have h2: "MusicCog_play_select ctx1 ''song'' start = Inr ''song''"
    by (simp add: MusicCog_play_select_def isdigit_def isdigit_char_def ascii_digit_def)
  have h3: "ytdl_single ''song'' = Inr (Single entryA)"
    by (simp add: ytdl_single_def)
  have h4: "info_entries (Single entryA) \<noteq> []"
    by (simp add: info_entries_def)
  have p0: "pending start (guild ctx1) = []"
    by (simp add: pending_def start_def)
  show ?thesis
    using play_without_voice_keeps_tracks
      [where s = start and c = ctx1 and query = "''song''" and u = "''song''"
         and ytdl = ytdl_single and data = "Single entryA", OF h1 h2 h3 h4] h1 h2 h3 h4 p0
    by (simp add: info_entries_def)
qed

section \<open>Stop, clear and the completion callback (OwnedBot.py)\<close>

text \<open>
  Claim C3. When \<^verbatim>\<open>stop\<close> is invoked while the guild's voice client plays a track,
  it succeeds, empties the queue, sets the guild's stop flag and stops the player; the
  callback of the stopped track then runs \<^verbatim>\<open>play_next\<close>, which only resets the
  flag: it takes nothing from the queue, starts nothing and sends nothing, so the voice
  client is not playing afterwards.
\<close>

theorem stop_suppresses_callback:
  assumes "voice s (guild c) = Some vc" and "is_playing vc"
  shows "snd (stop c s) = Inr ()
       \<and> stop_flags (fst (stop c s)) (guild c) = Some True
       \<and> pending (fst (stop c s)) (guild c) = []
       \<and> voice (fst (stop c s)) (guild c) = Some (vc_stop vc)
       \<and> \<not> is_playing (vc_stop vc)
       \<and> play_next c (fst (stop c s))
           = ((fst (stop c s))\<lparr>stop_flags := (stop_flags (fst (stop c s)))(guild c \<mapsto> False)\<rparr>, Inr ())"
  using assms
  by (simp add: stop_def play_next_def Let_def vc_stop_def is_playing_def pending_def)

theorem stop_suppresses_callback_witness:
  "voice playingA (guild ctx1) = Some \<lparr>connected = True, player = Some (YTDLSource entryA, Running)\<rparr>
   \<and> is_playing \<lparr>connected = True, player = Some (YTDLSource entryA, Running)\<rparr>
   \<and> pending playingA (guild ctx1) = [YTDLSource entryB, YTDLSource entryC]
   \<and> pending (fst (play_next ctx1 (fst (stop ctx1 playingA)))) (guild ctx1) = []
   \<and> played (guild ctx1) (log (fst (play_next ctx1 (fst (stop ctx1 playingA))))) = []
   \<and> log (fst (play_next ctx1 (fst (stop ctx1 playingA))))
       = [Send (guild ctx1) ''Music stopped and queue cleared.'']"
proof -
  let ?vc = "\<lparr>connected = True, player = Some (YTDLSource entryA, Running)\<rparr>"
  have h1: "voice playingA (guild ctx1) = Some ?vc"
    by (simp add: playingA_def ctx1_def)
  have h2: "is_playing ?vc"
    by (simp add: is_playing_def)
  have q: "pending playingA (guild ctx1) = [YTDLSource entryB, YTDLSource entryC]"
    by (simp add: playingA_def ctx1_def pending_def)
  have l: "log (fst (stop ctx1 playingA)) = [Send (guild ctx1) ''Music stopped and queue cleared.'']"
    by (simp add: stop_def playingA_def start_def ctx1_def Let_def is_playing_def)
  show ?thesis
    using stop_suppresses_callback [OF h1 h2] h1 h2 q l by simp
qed

text \<open>
  Claim C4, as the code has it. \<^verbatim>\<open>clear\<close> leaves the guild without pending
  tracks, sends its confirmation and changes neither the stop flags nor the voice client.
  A completion callback that arrives next starts no track: it resets a stop flag that was
  already set, and otherwise reports that the queue is empty.
\<close>

theorem clear_empties_queue:
  "pending (clear c s) (guild c) = []
   \<and> stop_flags (clear c s) = stop_flags s
   \<and> voice (clear c s) = voice s
   \<and> log (clear c s) = log s @ [Send (guild c) ''Queue has been cleared.'']
   \<and> after_callback c (clear c s) =
       (if stop_flags s (guild c) = Some True
        then (clear c s)\<lparr>stop_flags := (stop_flags s)(guild c \<mapsto> False)\<rparr>
        else send (guild c) ''Queue is empty.'' (clear c s))"
proof -
  have p: "pending (clear c s) (guild c) = []"
    by (simp add: clear_def Let_def) (simp add: pending_def)
  have f: "stop_flags (clear c s) = stop_flags s" "voice (clear c s) = voice s"
    "log (clear c s) = log s @ [Send (guild c) ''Queue has been cleared.'']"
    by (simp_all add: clear_def Let_def)
  have q: "song_queues (clear c s) (guild c) = None \<or> song_queues (clear c s) (guild c) = Some []"
    using p by (auto simp: pending_def split: option.splits)
  have "after_callback c (clear c s) =
       (if stop_flags s (guild c) = Some True
        then (clear c s)\<lparr>stop_flags := (stop_flags s)(guild c \<mapsto> False)\<rparr>
        else send (guild c) ''Queue is empty.'' (clear c s))"
    using q by (auto simp: after_callback_def play_next_def f Let_def)
  with p f show ?thesis by simp
qed

text \<open>The claim as stated fails: after \<^verbatim>\<open>clear\<close> the guild's stop flag is what
  it was, here false.\<close>

theorem clear_leaves_stop_flag:
  "stop_flags playingA (guild ctx1) = Some False
   \<and> stop_flags (clear ctx1 playingA) (guild ctx1) = Some False
   \<and> stop_flags (clear ctx1 playingA) (guild ctx1) \<noteq> Some True"
  by (simp add: clear_def playingA_def start_def ctx1_def send_def Let_def)

section \<open>Skip while nothing plays\<close>

text \<open>
  Claim C5, as the code has it. In \<^verbatim>\<open>OwnedBot.py\<close>, \<^verbatim>\<open>skip\<close> invoked while the
  guild has a voice client that is not playing changes nothing and sends the one message
  \<^verbatim>\<open>Not playing anything.\<close>; in the 2.0 variant, \<^verbatim>\<open>skip\<close> invoked while the
  guild has no voice client or one that is not playing changes nothing, sends nothing
  and raises nothing.
\<close>

theorem skip_while_idle:
  "(voice s (guild c) = Some vc \<and> \<not> is_playing vc
      \<longrightarrow> skip c s = (send (guild c) ''Not playing anything.'' s, Inr ()))
   \<and> (voice s (guild c) = None \<or> (voice s (guild c) = Some vc \<and> \<not> is_playing vc)
      \<longrightarrow> MusicCog_skip c s = (s, Inr ()))"
  by (auto simp: skip_def MusicCog_skip_def)

theorem skip_while_idle_witness:
  "voice joined (guild ctx1) = Some \<lparr>connected = True, player = None\<rparr>
   \<and> \<not> is_playing \<lparr>connected = True, player = None\<rparr>
   \<and> skip ctx1 joined = (send (guild ctx1) ''Not playing anything.'' joined, Inr ())
   \<and> MusicCog_skip ctx1 joined = (joined, Inr ())"
proof -
  have h: "voice joined (guild ctx1) = Some \<lparr>connected = True, player = None\<rparr>"
    by (simp add: joined_def ctx1_def)
  have n: "\<not> is_playing \<lparr>connected = True, player = None\<rparr>"
    by (simp add: is_playing_def)
  show ?thesis
    using skip_while_idle [of joined ctx1 "\<lparr>connected = True, player = None\<rparr>"] h n
    by simp
qed

text \<open>The claim as stated fails in the 2.0 variant: skipping in a guild whose voice
  client plays nothing produces no message.\<close>

theorem MusicCog_skip_idle_is_silent:
  "\<not> is_playing \<lparr>connected = True, player = None\<rparr>
   \<and> voice joined (guild ctx1) = Some \<lparr>connected = True, player = None\<rparr>
   \<and> MusicCog_skip ctx1 joined = (joined, Inr ())
   \<and> sent (guild ctx1) (log (fst (MusicCog_skip ctx1 joined))) = []"
  by (simp add: MusicCog_skip_def joined_def start_def ctx1_def is_playing_def)

section \<open>Owner-only commands\<close>

text \<open>
  Claim C6, as the code has it. When the invoking user is not the owner, the body of an
  owner-only command does not run. In \<^verbatim>\<open>OwnedBot.py\<close> each of
  \<^verbatim>\<open>set_token\<close>, \<^verbatim>\<open>set_api_key\<close> and \<^verbatim>\<open>set_yt_cookie\<close> then sends
  \<^verbatim>\<open>You are not the owner of this bot.\<close> and changes nothing else. The 2.0 variant
  has \<^verbatim>\<open>set_token\<close> and \<^verbatim>\<open>set_api_key\<close> only and gives them no error handler:
  the state is unchanged but for the error the framework logs, and no message is sent.
\<close>

theorem non_owner_rejected:
  assumes "author c \<noteq> owner_id s"
  shows "cmd_set_token login new_token c s = send (guild c) ''You are not the owner of this bot.'' s
       \<and> cmd_set_api_key api_key c s = send (guild c) ''You are not the owner of this bot.'' s
       \<and> cmd_set_yt_cookie write_file cookie_content c s
           = send (guild c) ''You are not the owner of this bot.'' s
       \<and> MusicCog_cmd_set_token new_token c s = s\<lparr>log := log s @ [LoggedError NotOwner]\<rparr>
       \<and> MusicCog_cmd_set_api_key api_key c s = s\<lparr>log := log s @ [LoggedError NotOwner]\<rparr>"
  using assms
  by (simp add: cmd_set_token_def cmd_set_api_key_def cmd_set_yt_cookie_def
      MusicCog_cmd_set_token_def MusicCog_cmd_set_api_key_def invoke_owner_only_def on_error_def
      set_token_error_def set_api_key_error_def set_yt_cookie_error_def)

theorem non_owner_rejected_witness:
  "author ctx1 \<noteq> owner_id start
   \<and> cmd_set_token login_ok ''new'' ctx1 start
       = send (guild ctx1) ''You are not the owner of this bot.'' start
   \<and> TOKEN (cmd_set_token login_ok ''new'' ctx1 start) = ''DISCORD_TOKEN_HERE''
   \<and> TOKEN (MusicCog_cmd_set_token ''new'' ctx1 start) = ''DISCORD_TOKEN_HERE''"
proof -
  have h: "author ctx1 \<noteq> owner_id start"
    by (simp add: ctx1_def start_def)
  have t: "TOKEN start = ''DISCORD_TOKEN_HERE''"
    by (simp add: start_def)
  show ?thesis
    using non_owner_rejected [OF h, of login_ok "''new''" "''k''" write_ok "''x''"] h t
    by (simp add: send_def)
qed

text \<open>The claim as stated fails in the 2.0 variant: a user who is not the owner gets no
  message from \<^verbatim>\<open>set_token\<close>.\<close>

theorem MusicCog_non_owner_gets_no_message:
  "author ctx1 \<noteq> owner_id start
   \<and> log (MusicCog_cmd_set_token ''new'' ctx1 start) = [LoggedError NotOwner]
   \<and> sent (guild ctx1) (log (MusicCog_cmd_set_token ''new'' ctx1 start)) = []"
  by (simp add: MusicCog_cmd_set_token_def invoke_owner_only_def on_error_def start_def ctx1_def)

section \<open>Pause and resume (OwnedBot.py)\<close>

text \<open>
  Claim C8 at the input where the code departs from it: in a guild where the bot has
  joined no voice channel nothing is playing, yet \<^verbatim>\<open>pause\<close> and \<^verbatim>\<open>resume\<close>
  raise the attribute error of \<^verbatim>\<open>None\<close> and send no message.
\<close>

theorem pause_without_voice_client:
  "voice start (guild ctx1) = None
   \<and> pause ctx1 start = (start, Inl (AttributeError ''is_playing''))
   \<and> resume ctx1 start = (start, Inl (AttributeError ''is_paused''))
   \<and> sent (guild ctx1) (log (fst (pause ctx1 start))) = []
   \<and> sent (guild ctx1) (log (fst (resume ctx1 start))) = []"
  by (simp add: pause_def resume_def start_def)

text \<open>With a voice client the two commands do what the claim says: a message and no
  change when the precondition fails, the transition between playing and paused when it
  holds.\<close>

lemma pause_resume_with_voice_client:
  assumes "voice s (guild c) = Some vc"
  shows "pause c s =
           (if is_playing vc then (s\<lparr>voice := (voice s)(guild c \<mapsto> vc_pause vc)\<rparr>, Inr ())
            else (send (guild c) ''The bot is not playing anything at the moment.'' s, Inr ()))"
    and "resume c s =
           (if is_paused vc then (s\<lparr>voice := (voice s)(guild c \<mapsto> vc_resume vc)\<rparr>, Inr ())
            else (send (guild c)
                    ''The bot was not playing anything before this. Use play_url command'' s, Inr ()))"
    and "is_playing vc \<Longrightarrow> is_paused (vc_pause vc)"
    and "is_paused vc \<Longrightarrow> is_playing (vc_resume vc)"
  using assms
  by (auto simp: pause_def resume_def is_playing_def is_paused_def vc_pause_def vc_resume_def
      split: option.splits pstatus.splits)

section \<open>Ordinal selection in play\<close>

lemma extracted_append [simp]: "extracted (xs @ ys) = extracted xs @ extracted ys"
  by (induction xs rule: extracted.induct) simp_all

lemma played_append [simp]: "played g (xs @ ys) = played g xs @ played g ys"
  by (induction g xs rule: played.induct) simp_all

lemma sent_append [simp]: "sent g (xs @ ys) = sent g xs @ sent g ys"
  by (induction g xs rule: sent.induct) simp_all

lemma init_guild_frame [simp]:
  "pending (init_guild c s) = pending s"
  "voice (init_guild c s) = voice s"
  "log (init_guild c s) = log s"
  "search_results (init_guild c s) = search_results s"
  by (auto simp: init_guild_def pending_def fun_eq_iff)

lemma play_select_init_guild [simp]:
  "play_select c q (init_guild c s) = play_select c q s"
  by (simp add: play_select_def)

lemma voice_play_log:
  "extracted (log (fst (voice_play g p s))) = extracted (log s)"
  by (simp add: voice_play_def split: option.splits)

lemma play_next_extracted [simp]:
  "extracted (log (fst (play_next c s))) = extracted (log s)"
  by (auto simp: play_next_def voice_play_def Let_def split: option.splits list.splits)

lemma MusicCog_play_next_extracted [simp]:
  "extracted (log (fst (MusicCog_play_next c s))) = extracted (log s)"
  by (auto simp: MusicCog_play_next_def voice_play_def Let_def split: option.splits list.splits)

lemma MusicCog_play_start_extracted [simp]:
  "extracted (log (fst (MusicCog_play_start c s))) = extracted (log s)"
  by (auto simp: MusicCog_play_start_def split: option.splits)

lemma play_select_valid:
  assumes "isdigit query" and "py_int query = Inr n"
    and "search_results s (guild c) = Some vs" and "1 \<le> n" and "n \<le> length vs"
  shows "play_select c query s = Inr (Some (''https://www.youtube.com/watch?v='' @ snd (vs ! (n - 1))))"
  using assms by (simp add: play_select_def)

lemma play_select_invalid:
  assumes "isdigit query" and "py_int query = Inr n"
    and "search_results s (guild c) = None \<or> n = 0
         \<or> (\<exists>vs. search_results s (guild c) = Some vs \<and> length vs < n)"
  shows "play_select c query s = Inr None"
  using assms by (auto simp: play_select_def split: option.splits)

lemma play_start_extracted [simp]:
  "extracted (log (fst (play_start c s))) = extracted (log s)"
  by (auto simp: play_start_def split: option.splits)

lemma play_extracted:
  assumes "play_select c query s = Inr (Some q)"
  shows "extracted (log (play ytdl c query s)) = extracted (log s) @ [q]"
proof -
  let ?s0 = "init_guild c s"
  obtain s1 r where fu: "from_url ytdl q ?s0 = (s1, r)"
    by (cases "from_url ytdl q ?s0")
  have l1: "extracted (log s1) = extracted (log s) @ [q]"
    using fu by (auto simp: from_url_def Let_def split: sum.splits info.splits)
  have b: "extracted (log (fst (play_body ytdl c query ?s0))) = extracted (log s) @ [q]"
  proof (cases r)
    case (Inl e)
    then show ?thesis by (simp add: play_body_def assms fu l1)
  next
    case (Inr players)
    define s2 where "s2 = enqueue (guild c) players s1"
    have l2: "extracted (log s2) = extracted (log s) @ [q]"
      by (simp add: s2_def l1 del: enqueue.simps)
    show ?thesis
      using l1 l2
      by (simp add: play_body_def assms fu Inr Let_def s2_def[symmetric]
          del: enqueue.simps str_nat.simps)
  qed
  obtain s5 r5 where bd: "play_body ytdl c query ?s0 = (s5, r5)"
    by (cases "play_body ytdl c query ?s0")
  show ?thesis
    using b by (cases r5) (simp_all add: play_def bd)
qed

lemma MusicCog_play_extracted:
  assumes "MusicCog_play_select c query s = Inr u"
  shows "extracted (log (MusicCog_play ytdl c query s)) = extracted (log s) @ [u]"
proof -
  let ?s0 = "MusicCog_get_queue c s"
  obtain s1 r where fu: "from_url ytdl u ?s0 = (s1, r)"
    by (cases "from_url ytdl u ?s0")
  have l1: "extracted (log s1) = extracted (log s) @ [u]"
    using fu by (auto simp: from_url_def Let_def split: sum.splits info.splits)
  show ?thesis
  proof (cases r)
    case (Inl e)
    then show ?thesis by (simp add: MusicCog_play_def MusicCog_play_body_def assms fu l1)
  next
    case (Inr players)
    define s2 where "s2 = enqueue (guild c) players s1"
    have l2: "extracted (log s2) = extracted (log s) @ [u]"
      by (simp add: s2_def l1 del: enqueue.simps)
    have st: "extracted (log (fst (MusicCog_play_start c (send (guild c) m s2))))
        = extracted (log s) @ [u]" for m
      by (simp add: l2)
    have b: "extracted (log (fst (MusicCog_play_body ytdl c query ?s0))) = extracted (log s) @ [u]"
      using st l1 l2
      by (simp add: MusicCog_play_body_def assms fu Inr Let_def s2_def[symmetric]
          split: list.splits del: enqueue.simps str_nat.simps)
    obtain s5 r5 where bd: "MusicCog_play_body ytdl c query ?s0 = (s5, r5)"
      by (cases "MusicCog_play_body ytdl c query ?s0")
    show ?thesis
      using b by (cases r5) (simp_all add: MusicCog_play_def bd)
  qed
qed

lemma isdigit_2: "isdigit ''2''"
  by (simp add: isdigit_def isdigit_char_def ascii_digit_def)

lemma py_int_2: "py_int ''2'' = Inr 2"
  by (simp add: py_int_def ascii_digit_def digit_val_def Let_def)

lemma isdigit_0: "isdigit ''0''"
  by (simp add: isdigit_def isdigit_char_def ascii_digit_def)

lemma py_int_0: "py_int ''0'' = Inr 0"
  by (simp add: py_int_def ascii_digit_def digit_val_def Let_def)

lemma isdigit_3: "isdigit ''3''"
  by (simp add: isdigit_def isdigit_char_def ascii_digit_def)

lemma py_int_3: "py_int ''3'' = Inr 3"
  by (simp add: py_int_def ascii_digit_def digit_val_def Let_def)

text \<open>
  Claim C1, as the code has it. Let the query be a digit string that \<^verbatim>\<open>int\<close>
  reads as \<open>n\<close>. In \<^verbatim>\<open>OwnedBot.py\<close>, \<^verbatim>\<open>play\<close> rejects it when the guild has
  no search results, when \<open>n = 0\<close> and when \<open>n\<close> exceeds the number of results: it
  sends \<^verbatim>\<open>Invalid number from search results.\<close> and does nothing else, so the
  extraction service is not called. In both variants, with \<open>n\<close> between 1 and the
  number of results, the one call of the extraction service gets the watch url of the
  \<open>n\<close>-th result. In the 2.0 variant a guild without search results has the digit
  string itself handed to the extraction service.
\<close>

theorem ordinal_selection:
  assumes "isdigit query" and "py_int query = Inr n"
  shows "(search_results s (guild c) = None \<or> n = 0
            \<or> (\<exists>vs. search_results s (guild c) = Some vs \<and> length vs < n)
          \<longrightarrow> play ytdl c query s
                = send (guild c) ''Invalid number from search results.'' (init_guild c s))
       \<and> (search_results s (guild c) = Some vs \<and> 1 \<le> n \<and> n \<le> length vs
          \<longrightarrow> extracted (log (play ytdl c query s))
                = extracted (log s) @ [''https://www.youtube.com/watch?v='' @ snd (vs ! (n - 1))]
              \<and> extracted (log (MusicCog_play ytdl c query s))
                = extracted (log s) @ [''https://www.youtube.com/watch?v='' @ snd (vs ! (n - 1))])
       \<and> (search_results s (guild c) = None
          \<longrightarrow> extracted (log (MusicCog_play ytdl c query s)) = extracted (log s) @ [query])"
proof (intro conjI impI)
  assume "search_results s (guild c) = None \<or> n = 0
            \<or> (\<exists>vs. search_results s (guild c) = Some vs \<and> length vs < n)"
  then have "play_select c query s = Inr None"
    using assms by (rule play_select_invalid[rotated 2])
  then show "play ytdl c query s
      = send (guild c) ''Invalid number from search results.'' (init_guild c s)"
    by (simp add: play_def play_body_def)
next
  assume v: "search_results s (guild c) = Some vs \<and> 1 \<le> n \<and> n \<le> length vs"
  let ?u = "''https://www.youtube.com/watch?v='' @ snd (vs ! (n - 1))"
  have "play_select c query s = Inr (Some ?u)"
    using assms v by (simp add: play_select_valid)
  then show "extracted (log (play ytdl c query s)) = extracted (log s) @ [?u]"
    by (rule play_extracted)
  have i: "0 \<le> int n - 1" "nat (int n - 1) = n - 1" "n - 1 < length vs"
    using v by auto
  have "py_index vs (int n - 1) = Inr (vs ! (n - 1))"
    unfolding py_index_def using i by simp
  then have "MusicCog_play_select c query s = Inr ?u"
    using assms v by (simp add: MusicCog_play_select_def)
  then show "extracted (log (MusicCog_play ytdl c query s)) = extracted (log s) @ [?u]"
    by (rule MusicCog_play_extracted)
next
  assume "search_results s (guild c) = None"
  then have "MusicCog_play_select c query s = Inr query"
    by (simp add: MusicCog_play_select_def)
  then show "extracted (log (MusicCog_play ytdl c query s)) = extracted (log s) @ [query]"
    by (rule MusicCog_play_extracted)
qed

theorem ordinal_selection_witness:
  "isdigit ''2'' \<and> py_int ''2'' = Inr 2
   \<and> search_results searched (guild ctx1) = Some [(''first'', ''id1''), (''second'', ''id2'')]
   \<and> search_results start (guild ctx1) = None
   \<and> extracted (log (play ytdl_single ctx1 ''2'' searched)) = [''https://www.youtube.com/watch?v=id2'']
   \<and> extracted (log (MusicCog_play ytdl_single ctx1 ''2'' searched))
       = [''https://www.youtube.com/watch?v=id2'']
   \<and> play ytdl_single ctx1 ''2'' start
       = send (guild ctx1) ''Invalid number from search results.'' (init_guild ctx1 start)
   \<and> extracted (log (MusicCog_play ytdl_single ctx1 ''2'' start)) = [''2'']"
proof -
  have r: "search_results searched (guild ctx1) = Some [(''first'', ''id1''), (''second'', ''id2'')]"
    by (simp add: searched_def joined_def start_def ctx1_def)
  have n: "search_results start (guild ctx1) = None"
    by (simp add: start_def)
  have l: "log searched = []" "log start = []"
    by (simp_all add: searched_def joined_def start_def)
  show ?thesis
    using ordinal_selection [OF isdigit_2 py_int_2, of searched ctx1 ytdl_single
        "[(''first'', ''id1''), (''second'', ''id2'')]"]
      ordinal_selection [OF isdigit_2 py_int_2, of start ctx1 ytdl_single "[]"]
      isdigit_2 py_int_2 r n l
    by simp
qed

text \<open>The claim as stated fails in the 2.0 variant: with no prior search the query
  \<^verbatim>\<open>2\<close> is resolved as a search term, the track found is queued and played, and no
  invalid-selection message is sent.\<close>

theorem MusicCog_play_digits_without_search:
  "isdigit ''2'' \<and> py_int ''2'' = Inr 2
   \<and> search_results joined (guild ctx1) = None
   \<and> log (MusicCog_play ytdl_single ctx1 ''2'' joined)
       = [Extract ''2'',
          Send (guild ctx1) ''**Added to queue:** A'',
          VoicePlay (guild ctx1) (YTDLSource entryA),
          Send (guild ctx1) ''**Now playing:** A'']"
  by (simp add: isdigit_2 py_int_2 MusicCog_play_def MusicCog_play_body_def MusicCog_play_select_def
      MusicCog_get_queue_def from_url_def ytdl_single_def MusicCog_play_start_def
      MusicCog_play_next_def voice_play_def is_playing_def append_track_def pending_def
      send_def joined_def start_def ctx1_def entryA_def YTDLSource_def Let_def)

text \<open>The 2.0 variant does not check the range either: with two results, \<^verbatim>\<open>0\<close>
  selects the last one (index \<open>-1\<close>), and \<^verbatim>\<open>3\<close> ends in the message of the
  index error.\<close>

lemma MusicCog_play_ordinal_out_of_range:
  "extracted (log (MusicCog_play ytdl_single ctx1 ''0'' searched))
     = [''https://www.youtube.com/watch?v=id2'']
   \<and> log (MusicCog_play ytdl_single ctx1 ''3'' searched)
     = [Send (guild ctx1) ''An error occurred: list index out of range'']"
proof -
  have r: "search_results searched (guild ctx1) = Some [(''first'', ''id1''), (''second'', ''id2'')]"
    by (simp add: searched_def joined_def start_def ctx1_def)
  have l: "log searched = []"
    by (simp add: searched_def joined_def start_def)
  have "MusicCog_play_select ctx1 ''0'' searched = Inr ''https://www.youtube.com/watch?v=id2''"
    by (simp add: MusicCog_play_select_def isdigit_0 py_int_0 r py_index_def)
  then have a: "extracted (log (MusicCog_play ytdl_single ctx1 ''0'' searched))
     = [''https://www.youtube.com/watch?v=id2'']"
    using MusicCog_play_extracted[of ctx1 "''0''" searched _ ytdl_single] l by simp
  have "MusicCog_play_select ctx1 ''3'' searched = Inl IndexError"
    by (simp add: MusicCog_play_select_def isdigit_3 py_int_3 r py_index_def)
  then have "log (MusicCog_play ytdl_single ctx1 ''3'' searched)
     = [Send (guild ctx1) ''An error occurred: list index out of range'']"
    by (simp add: MusicCog_play_def MusicCog_play_body_def l)
  with a show ?thesis by simp
qed

section \<open>The queue is first in, first out\<close>

lemma track_ends_frame [simp]:
  "pending (track_ends g s) = pending s"
  "log (track_ends g s) = log s"
  "stop_flags (track_ends g s) = stop_flags s"
  "song_queues (track_ends g s) = song_queues s"
  by (auto simp: track_ends_def split: option.splits pstatus.splits)

lemma track_ends_voice:
  assumes "voice s g = Some vc" and "connected vc"
  shows "\<exists>vc'. voice (track_ends g s) g = Some vc' \<and> connected vc' \<and> \<not> is_playing vc'"
  using assms
  by (auto simp: track_ends_def is_playing_def split: option.splits pstatus.splits)

lemma voice_play_ok:
  assumes "voice s g = Some vc" and "connected vc" and "\<not> is_playing vc"
  shows "voice_play g p s =
           (s\<lparr>voice := (voice s)(g \<mapsto> vc\<lparr>player := Some (p, Running)\<rparr>),
              log := log s @ [VoicePlay g p]\<rparr>, Inr ())"
  using assms by (simp add: voice_play_def)

text \<open>One advance step of OwnedBot.py on a connected client that is not playing.\<close>

lemma play_next_connected:
  assumes "voice s (guild c) = Some vc" and "connected vc" and "\<not> is_playing vc"
  shows "fst (play_next c s) =
     (if stop_flags s (guild c) = Some True
      then s\<lparr>stop_flags := (stop_flags s)(guild c \<mapsto> False)\<rparr>
      else case pending s (guild c) of
             [] \<Rightarrow> send (guild c) ''Queue is empty.'' s
           | p # rest \<Rightarrow>
               send (guild c) (''**Now playing:** '' @ title p)
                 (s\<lparr>song_queues := (song_queues s)(guild c \<mapsto> rest),
                    voice := (voice s)(guild c \<mapsto> vc\<lparr>player := Some (p, Running)\<rparr>),
                    log := log s @ [VoicePlay (guild c) p]\<rparr>))"
  using assms
  by (auto simp: play_next_def Let_def pending_def voice_play_ok split: option.splits list.splits)

lemma MusicCog_play_next_connected:
  assumes "voice s (guild c) = Some vc" and "connected vc" and "\<not> is_playing vc"
  shows "fst (MusicCog_play_next c s) =
     (case pending s (guild c) of
        [] \<Rightarrow> MusicCog_get_queue c s
      | p # rest \<Rightarrow>
          send (guild c) (''**Now playing:** '' @ title p)
            ((MusicCog_get_queue c s)\<lparr>song_queues := (song_queues (MusicCog_get_queue c s))(guild c \<mapsto> rest),
               voice := (voice s)(guild c \<mapsto> vc\<lparr>player := Some (p, Running)\<rparr>),
               log := log s @ [VoicePlay (guild c) p]\<rparr>))"
  using assms
  by (auto simp: MusicCog_play_next_def Let_def voice_play_ok split: list.splits)

text \<open>The effect of a completion on the tracks started and the tracks pending.\<close>

lemma completion_step:
  assumes "voice s (guild c) = Some vc" and "connected vc"
  shows "(\<exists>vc'. voice (completion c s) (guild c) = Some vc' \<and> connected vc')
       \<and> (if stop_flags s (guild c) = Some True
           then played (guild c) (log (completion c s)) = played (guild c) (log s)
              \<and> pending (completion c s) (guild c) = pending s (guild c)
              \<and> stop_flags (completion c s) (guild c) = Some False
           else played (guild c) (log (completion c s))
                  = played (guild c) (log s) @ take 1 (pending s (guild c))
              \<and> pending (completion c s) (guild c) = drop 1 (pending s (guild c))
              \<and> stop_flags (completion c s) = stop_flags s)"
proof -
  obtain vc' where v: "voice (track_ends (guild c) s) (guild c) = Some vc'" "connected vc'"
    "\<not> is_playing vc'"
    using track_ends_voice[OF assms] by blast
  show ?thesis
    unfolding completion_def after_callback_def play_next_connected[OF v]
    by (cases "pending s (guild c)") (simp_all add: v)
qed

lemma MusicCog_completion_step:
  assumes "voice s (guild c) = Some vc" and "connected vc"
  shows "(\<exists>vc'. voice (MusicCog_completion c s) (guild c) = Some vc' \<and> connected vc')
       \<and> played (guild c) (log (MusicCog_completion c s))
           = played (guild c) (log s) @ take 1 (pending s (guild c))
       \<and> pending (MusicCog_completion c s) (guild c) = drop 1 (pending s (guild c))"
proof -
  obtain vc' where v: "voice (track_ends (guild c) s) (guild c) = Some vc'" "connected vc'"
    "\<not> is_playing vc'"
    using track_ends_voice[OF assms] by blast
  show ?thesis
    unfolding MusicCog_completion_def MusicCog_after_callback_def MusicCog_play_next_connected[OF v]
    by (cases "pending s (guild c)") (simp_all add: v)
qed


lemma run_ops_fifo:
  assumes "voice s (guild c) = Some vc" and "connected vc"
  shows "played (guild c) (log (run_ops c ops s)) @ pending (run_ops c ops s) (guild c)
           = played (guild c) (log s) @ pending s (guild c) @ enqs ops"
  using assms
proof (induction c ops s arbitrary: vc rule: run_ops.induct)
  case (1 c s)
  then show ?case by simp
next
  case (2 c ts ops s)
  have "voice (enqueue (guild c) ts s) (guild c) = Some vc"
    using 2 by simp
  from "2.IH"[OF this "2.prems"(2)] show ?case by simp
next
  case (3 c ops s)
  from completion_step[OF "3.prems"]
  obtain vc' where v: "voice (completion c s) (guild c) = Some vc'" "connected vc'"
    and e: "played (guild c) (log (completion c s)) @ pending (completion c s) (guild c)
          = played (guild c) (log s) @ pending s (guild c)"
    by (auto split: if_splits)
  from "3.IH"[OF v] e show ?case by simp
qed

lemma MusicCog_run_ops_fifo:
  assumes "voice s (guild c) = Some vc" and "connected vc"
  shows "played (guild c) (log (MusicCog_run_ops c ops s)) @ pending (MusicCog_run_ops c ops s) (guild c)
           = played (guild c) (log s) @ pending s (guild c) @ enqs ops"
  using assms
proof (induction c ops s arbitrary: vc rule: MusicCog_run_ops.induct)
  case (1 c s)
  then show ?case by simp
next
  case (2 c ts ops s)
  have "voice (enqueue (guild c) ts (MusicCog_get_queue c s)) (guild c) = Some vc"
    using 2 by simp
  from "2.IH"[OF this "2.prems"(2)] show ?case by simp
next
  case (3 c ops s)
  from MusicCog_completion_step[OF "3.prems"]
  obtain vc' where v: "voice (MusicCog_completion c s) (guild c) = Some vc'" "connected vc'"
    and e: "played (guild c) (log (MusicCog_completion c s)) @ pending (MusicCog_completion c s) (guild c)
          = played (guild c) (log s) @ pending s (guild c)"
    by auto
  from "3.IH"[OF v] e show ?case by simp
qed

lemma take_Suc_drop: "take (Suc 0) xs @ take k (drop (Suc 0) xs) = take (Suc k) xs"
  by (cases xs) simp_all

lemma run_ops_advances:
  assumes "voice s (guild c) = Some vc" and "connected vc" and "stop_flags s (guild c) \<noteq> Some True"
  shows "played (guild c) (log (run_ops c (replicate k Adv) s))
           = played (guild c) (log s) @ take k (pending s (guild c))
       \<and> pending (run_ops c (replicate k Adv) s) (guild c) = drop k (pending s (guild c))"
  using assms
proof (induction k arbitrary: s vc)
  case 0
  then show ?case by simp
next
  case (Suc k)
  from completion_step[OF Suc.prems(1,2)] Suc.prems(3)
  obtain vc' where v: "voice (completion c s) (guild c) = Some vc'" "connected vc'"
    and p: "played (guild c) (log (completion c s))
          = played (guild c) (log s) @ take 1 (pending s (guild c))"
    and q: "pending (completion c s) (guild c) = drop 1 (pending s (guild c))"
    and f: "stop_flags (completion c s) = stop_flags s"
    by auto
  have "stop_flags (completion c s) (guild c) \<noteq> Some True"
    using f Suc.prems(3) by simp
  from Suc.IH[OF v this] show ?case
    by (simp add: p q take_Suc_drop del: take_Suc_Cons drop_Suc_Cons)
qed

lemma MusicCog_run_ops_advances:
  assumes "voice s (guild c) = Some vc" and "connected vc"
  shows "played (guild c) (log (MusicCog_run_ops c (replicate k Adv) s))
           = played (guild c) (log s) @ take k (pending s (guild c))
       \<and> pending (MusicCog_run_ops c (replicate k Adv) s) (guild c) = drop k (pending s (guild c))"
  using assms
proof (induction k arbitrary: s vc)
  case 0
  then show ?case by simp
next
  case (Suc k)
  from MusicCog_completion_step[OF Suc.prems(1,2)]
  obtain vc' where v: "voice (MusicCog_completion c s) (guild c) = Some vc'" "connected vc'"
    and p: "played (guild c) (log (MusicCog_completion c s))
          = played (guild c) (log s) @ take 1 (pending s (guild c))"
    and q: "pending (MusicCog_completion c s) (guild c) = drop 1 (pending s (guild c))"
    by auto
  from Suc.IH[OF v] show ?case
    by (simp add: p q take_Suc_drop del: take_Suc_Cons drop_Suc_Cons)
qed

text \<open>
  Claim C2. Take a guild whose voice client is connected and any run of enqueue loops and
  natural completions of the current track. In both variants the tracks started so far,
  followed by the tracks still pending, are the tracks started and pending before the run
  followed by the enqueued tracks in the order of their enqueueing: nothing is reordered,
  lost or repeated. And \<open>k\<close> completions in a row start the first \<open>k\<close> pending tracks
  in their order and leave the others pending (in \<^verbatim>\<open>OwnedBot.py\<close> when the stop
  flag is not set).
\<close>

theorem queue_is_fifo:
  assumes "voice s (guild c) = Some vc" and "connected vc"
  shows "played (guild c) (log (run_ops c ops s)) @ pending (run_ops c ops s) (guild c)
           = played (guild c) (log s) @ pending s (guild c) @ enqs ops
       \<and> played (guild c) (log (MusicCog_run_ops c ops s)) @ pending (MusicCog_run_ops c ops s) (guild c)
           = played (guild c) (log s) @ pending s (guild c) @ enqs ops
       \<and> (stop_flags s (guild c) \<noteq> Some True \<longrightarrow>
            played (guild c) (log (run_ops c (replicate k Adv) s))
              = played (guild c) (log s) @ take k (pending s (guild c))
          \<and> pending (run_ops c (replicate k Adv) s) (guild c) = drop k (pending s (guild c)))
       \<and> played (guild c) (log (MusicCog_run_ops c (replicate k Adv) s))
           = played (guild c) (log s) @ take k (pending s (guild c))
       \<and> pending (MusicCog_run_ops c (replicate k Adv) s) (guild c) = drop k (pending s (guild c))"
  using run_ops_fifo[OF assms] MusicCog_run_ops_fifo[OF assms]
    run_ops_advances[OF assms] MusicCog_run_ops_advances[OF assms]
  by blast

theorem queue_is_fifo_witness:
  "voice playingA (guild ctx1) = Some \<lparr>connected = True, player = Some (YTDLSource entryA, Running)\<rparr>
   \<and> connected \<lparr>connected = True, player = Some (YTDLSource entryA, Running)\<rparr>
   \<and> stop_flags playingA (guild ctx1) \<noteq> Some True
   \<and> played (guild ctx1) (log (run_ops ctx1 [Adv, Enq [YTDLSource entryA], Adv, Adv] playingA))
       @ pending (run_ops ctx1 [Adv, Enq [YTDLSource entryA], Adv, Adv] playingA) (guild ctx1)
       = [YTDLSource entryB, YTDLSource entryC, YTDLSource entryA]
   \<and> played (guild ctx1) (log (MusicCog_run_ops ctx1 [Adv, Enq [YTDLSource entryA], Adv, Adv] playingA))
       @ pending (MusicCog_run_ops ctx1 [Adv, Enq [YTDLSource entryA], Adv, Adv] playingA) (guild ctx1)
       = [YTDLSource entryB, YTDLSource entryC, YTDLSource entryA]
   \<and> played (guild ctx1) (log (run_ops ctx1 (replicate 1 Adv) playingA)) = [YTDLSource entryB]
   \<and> pending (run_ops ctx1 (replicate 1 Adv) playingA) (guild ctx1) = [YTDLSource entryC]
   \<and> played (guild ctx1) (log (MusicCog_run_ops ctx1 (replicate 1 Adv) playingA)) = [YTDLSource entryB]
   \<and> pending (MusicCog_run_ops ctx1 (replicate 1 Adv) playingA) (guild ctx1) = [YTDLSource entryC]"
proof -
  let ?vc = "\<lparr>connected = True, player = Some (YTDLSource entryA, Running)\<rparr>"
  have h1: "voice playingA (guild ctx1) = Some ?vc"
    by (simp add: playingA_def ctx1_def)
  have h2: "connected ?vc"
    by simp
  have h3: "stop_flags playingA (guild ctx1) \<noteq> Some True"
    by (simp add: playingA_def ctx1_def)
  have q: "pending playingA (guild ctx1) = [YTDLSource entryB, YTDLSource entryC]"
    by (simp add: playingA_def ctx1_def pending_def)
  have l: "log playingA = []"
    by (simp add: playingA_def start_def)
  show ?thesis
    using queue_is_fifo [OF h1 h2, of "[Adv, Enq [YTDLSource entryA], Adv, Adv]" 1] h1 h3 q l
    by (simp del: run_ops.simps MusicCog_run_ops.simps replicate.simps)
qed

section \<open>A play that resolves to several tracks (OwnedBot.py)\<close>

lemma voice_play_frame [simp]:
  "pending (fst (voice_play g p s)) = pending s"
  "stop_flags (fst (voice_play g p s)) = stop_flags s"
  by (auto simp: voice_play_def split: option.splits)

lemma play_next_pending:
  "pending (fst (play_next c s)) (guild c)
     = (if stop_flags s (guild c) = Some True then pending s (guild c) else tl (pending s (guild c)))"
proof (cases "stop_flags s (guild c) = Some True")
  case True
  then show ?thesis by (simp add: play_next_def)
next
  case False
  show ?thesis
  proof (cases "pending s (guild c)")
    case Nil
    then have "song_queues s (guild c) = None \<or> song_queues s (guild c) = Some []"
      by (auto simp: pending_def split: option.splits)
    then show ?thesis using False Nil by (auto simp: play_next_def)
  next
    case (Cons p rest)
    then have sq: "song_queues s (guild c) = Some (p # rest)"
      by (auto simp: pending_def split: option.splits)
    obtain s2 r where vp: "voice_play (guild c) p (s\<lparr>song_queues := (song_queues s)(guild c \<mapsto> rest)\<rparr>) = (s2, r)"
      by (cases "voice_play (guild c) p (s\<lparr>song_queues := (song_queues s)(guild c \<mapsto> rest)\<rparr>)")
    have "pending s2 (guild c) = rest"
      using voice_play_frame(1)[of "guild c" p "s\<lparr>song_queues := (song_queues s)(guild c \<mapsto> rest)\<rparr>"] vp
      by simp
    then show ?thesis
      using False Cons by (cases r) (simp_all add: play_next_def sq vp)
  qed
qed

lemma play_start_pending:
  "pending (fst (play_start c s)) (guild c)
     = (if (case voice s (guild c) of Some vc \<Rightarrow> \<not> is_playing vc | None \<Rightarrow> False)
           \<and> stop_flags s (guild c) \<noteq> Some True
        then tl (pending s (guild c)) else pending s (guild c))"
  by (auto simp: play_start_def play_next_pending split: option.splits)

text \<open>
  Claim C7. When the query of \<^verbatim>\<open>play\<close> passes the ordinal branch as \<open>q\<close> and
  \<open>q\<close> resolves to at least one item, every resolved track is appended to the guild's
  queue in the provider's order; the advance step that follows when a voice client
  exists and is not playing takes away the front track unless the stop flag is set. So
  the pending tracks are the old ones followed by the resolved ones, without the front
  one when it was started, and \<^verbatim>\<open>queue\<close> then lists exactly these, numbered in
  that order.
\<close>

theorem play_appends_in_order:
  assumes "play_select c query s = Inr (Some q)"
    and "ytdl q = Inr data"
    and "info_entries data \<noteq> []"
  shows "pending (play ytdl c query s) (guild c)
           = (if (case voice s (guild c) of Some vc \<Rightarrow> \<not> is_playing vc | None \<Rightarrow> False)
                 \<and> stop_flags (init_guild c s) (guild c) \<noteq> Some True
              then tl (pending s (guild c) @ map YTDLSource (info_entries data))
              else pending s (guild c) @ map YTDLSource (info_entries data))
       \<and> log (queue c (play ytdl c query s))
           = log (play ytdl c query s)
             @ [Send (guild c)
                  (if pending (play ytdl c query s) (guild c) = [] then ''The queue is empty.''
                   else ''**Current Queue:**'' @ [CHR 0x0A]
                        @ queue_list (pending (play ytdl c query s) (guild c)))]"
proof -
  let ?s0 = "init_guild c s"
  let ?ps = "map YTDLSource (info_entries data)"
  let ?s1 = "?s0\<lparr>log := log ?s0 @ [Extract q]\<rparr>"
  have ne: "?ps \<noteq> []" using assms(3) by simp
  have fu: "from_url ytdl q ?s0 = (?s1, Inr ?ps)"
    using assms(2) by (rule from_url_Inr)
  define m where "m = (if length ?ps > 1
      then ''**Added '' @ str_nat (length ?ps) @ '' songs to the queue.**''
      else ''**Added to queue:** '' @ title (hd ?ps))"
  define s3 where "s3 = send (guild c) m (enqueue (guild c) ?ps ?s1)"
  have body: "play_body ytdl c query ?s0 = play_start c s3"
    using ne
    by (cases "length ?ps > 1")
       (simp_all add: play_body_def assms(1) fu Let_def m_def s3_def
          del: enqueue.simps str_nat.simps)
  have p3: "pending s3 (guild c) = pending s (guild c) @ ?ps"
    and v3: "voice s3 = voice s" and f3: "stop_flags s3 = stop_flags ?s0"
    by (simp_all add: s3_def del: enqueue.simps)
  obtain s4 r where ps4: "play_start c s3 = (s4, r)" by (cases "play_start c s3")
  have "pending (play ytdl c query s) (guild c) = pending s4 (guild c)"
    by (cases r) (simp_all add: play_def body ps4)
  also have "\<dots> = pending (fst (play_start c s3)) (guild c)"
    by (simp add: ps4)
  finally have a: "pending (play ytdl c query s) (guild c)
           = (if (case voice s (guild c) of Some vc \<Rightarrow> \<not> is_playing vc | None \<Rightarrow> False)
                 \<and> stop_flags ?s0 (guild c) \<noteq> Some True
              then tl (pending s (guild c) @ ?ps)
              else pending s (guild c) @ ?ps)"
    by (simp only: play_start_pending p3 v3 f3)
  have b: "log (queue c t) = log t @ [Send (guild c)
        (if pending t (guild c) = [] then ''The queue is empty.''
         else ''**Current Queue:**'' @ [CHR 0x0A] @ queue_list (pending t (guild c)))]" for t
    by (auto simp: queue_def pending_def split: option.splits list.splits)
  from a b show ?thesis by blast
qed

theorem play_appends_in_order_witness:
  "play_select ctx1 ''list'' joined = Inr (Some ''list'')
   \<and> ytdl_playlist ''list'' = Inr (Entries [entryA, entryB, entryC])
   \<and> info_entries (Entries [entryA, entryB, entryC]) \<noteq> []
   \<and> pending (play ytdl_playlist ctx1 ''list'' joined) (guild ctx1)
       = [YTDLSource entryB, YTDLSource entryC]
   \<and> pending (play ytdl_playlist ctx1 ''list'' playingA) (guild ctx1)
       = [YTDLSource entryB, YTDLSource entryC, YTDLSource entryA, YTDLSource entryB, YTDLSource entryC]
   \<and> log (queue ctx1 (play ytdl_playlist ctx1 ''list'' joined))
       = log (play ytdl_playlist ctx1 ''list'' joined)
         @ [Send (guild ctx1) (''**Current Queue:**'' @ [CHR 0x0A] @ ''1. B'' @ [CHR 0x0A] @ ''2. C'')]"
proof -
  have h1: "play_select ctx1 ''list'' s = Inr (Some ''list'')" for s
    by (simp add: play_select_def isdigit_def isdigit_char_def ascii_digit_def)
  have h2: "ytdl_playlist ''list'' = Inr (Entries [entryA, entryB, entryC])"
    by (simp add: ytdl_playlist_def)
  have h3: "info_entries (Entries [entryA, entryB, entryC]) \<noteq> []"
    by (simp add: info_entries_def)
  have j: "pending joined (guild ctx1) = []"
    "voice joined (guild ctx1) = Some \<lparr>connected = True, player = None\<rparr>"
    "stop_flags (init_guild ctx1 joined) (guild ctx1) = Some False"
    by (simp_all add: joined_def start_def ctx1_def pending_def init_guild_def)
  have a: "pending playingA (guild ctx1) = [YTDLSource entryB, YTDLSource entryC]"
    "voice playingA (guild ctx1)
       = Some \<lparr>connected = True, player = Some (YTDLSource entryA, Running)\<rparr>"
    by (simp_all add: playingA_def ctx1_def pending_def)
  have n: "\<not> is_playing \<lparr>connected = True, player = None\<rparr>"
    "is_playing \<lparr>connected = True, player = Some (YTDLSource entryA, Running)\<rparr>"
    by (simp_all add: is_playing_def)
  have l: "queue_list [YTDLSource entryB, YTDLSource entryC] = ''1. B'' @ [CHR 0x0A] @ ''2. C''"
    by (simp add: queue_list_def enumerate_eq_zip YTDLSource_def entryB_def entryC_def)
  show ?thesis
    using play_appends_in_order
        [where c = ctx1 and query = "''list''" and q = "''list''" and ytdl = ytdl_playlist
           and data = "Entries [entryA, entryB, entryC]" and s = joined, OF h1 h2 h3]
      play_appends_in_order
        [where c = ctx1 and query = "''list''" and q = "''list''" and ytdl = ytdl_playlist
           and data = "Entries [entryA, entryB, entryC]" and s = playingA, OF h1 h2 h3]
      h1 h2 h3 j a n l
    by (simp add: info_entries_def)
qed

section \<open>Volume (2.0)\<close>

lemma pending_update_if:
  "pending (s\<lparr>song_queues := (song_queues s)(g \<mapsto> q)\<rparr>) g' = (if g' = g then q else pending s g')"
  by (simp add: pending_def)

lemma pending_get_queue [simp]: "pending (MusicCog_get_queue c s) = pending s"
  by (auto simp: MusicCog_get_queue_def pending_def fun_eq_iff)

lemma pending_enqueue_if:
  "pending (enqueue g ts s) g' = (if g' = g then pending s g @ ts else pending s g')"
  by simp

lemma extends_refl: "queued_default s \<Longrightarrow> extends_default s s"
  by (simp add: extends_default_def)

lemma extends_trans:
  assumes "extends_default a b" and "extends_default b c"
  shows "extends_default a c"
proof -
  from assms obtain es fs where "log b = log a @ es" "log c = log b @ fs"
    and d: "\<forall>g. \<forall>t \<in> set (played g es). volume t = 0.5"
      "\<forall>g. \<forall>t \<in> set (played g fs). volume t = 0.5"
    by (auto simp: extends_default_def)
  then have "log c = log a @ (es @ fs)" by simp
  moreover have "\<forall>g. \<forall>t \<in> set (played g (es @ fs)). volume t = 0.5"
    using d by auto
  ultimately show ?thesis
    using assms(2) unfolding extends_default_def by blast
qed

text \<open>A step that starts no track and puts no new track on a queue.\<close>

lemma extends_quiet:
  assumes "queued_default s"
    and "\<And>g. set (pending s' g) \<subseteq> set (pending s g)"
    and "log s' = log s @ es"
    and "\<And>g. played g es = []"
  shows "extends_default s s'"
  using assms unfolding extends_default_def queued_default_def by (metis empty_iff empty_set subsetD)

lemma extends_send: "queued_default s \<Longrightarrow> extends_default s (send g m s)"
  by (rule extends_quiet[where es = "[Send g m]"]) simp_all

lemma extends_queued: "extends_default s s' \<Longrightarrow> queued_default s'"
  by (simp add: extends_default_def)

lemma extends_then_send: "extends_default s s' \<Longrightarrow> extends_default s (send g m s')"
  using extends_trans extends_send extends_queued by blast

lemma drain_Nil [simp]: "drain q = []"
  by (induction q) simp_all

lemma extends_voice_play:
  assumes "queued_default s" and "volume p = 0.5"
  shows "extends_default s (fst (voice_play g p s))"
proof (cases "snd (voice_play g p s)")
  case (Inl e)
  then have "fst (voice_play g p s) = s"
    by (auto simp: voice_play_def split: option.splits if_splits)
  then show ?thesis using assms(1) by (simp add: extends_refl)
next
  case (Inr u)
  then obtain vc where "fst (voice_play g p s)
      = s\<lparr>voice := (voice s)(g \<mapsto> vc\<lparr>player := Some (p, Running)\<rparr>), log := log s @ [VoicePlay g p]\<rparr>"
    by (auto simp: voice_play_def split: option.splits if_splits)
  then show ?thesis
    using assms by (auto simp: extends_default_def queued_default_def)
qed

lemma extends_MusicCog_play_next:
  assumes "queued_default s"
  shows "extends_default s (fst (MusicCog_play_next c s))"
proof -
  let ?s1 = "MusicCog_get_queue c s"
  have q1: "queued_default ?s1" using assms by (simp add: queued_default_def)
  have e1: "extends_default s ?s1"
    by (rule extends_quiet[OF assms, where es = "[]"]) simp_all
  show ?thesis
  proof (cases "pending ?s1 (guild c)")
    case Nil
    then show ?thesis using e1 by (simp add: MusicCog_play_next_def Let_def)
  next
    case (Cons p rest)
    show ?thesis
    proof (cases "voice ?s1 (guild c) = None")
      case True
      then show ?thesis using e1 Cons by (simp add: MusicCog_play_next_def Let_def)
    next
      case False
      let ?s2 = "?s1\<lparr>song_queues := (song_queues ?s1)(guild c \<mapsto> rest)\<rparr>"
      have pv: "volume p = 0.5"
        using assms Cons by (auto simp: queued_default_def dest: spec[where x = "guild c"])
      have sub: "set (pending ?s2 g) \<subseteq> set (pending s g)" for g
        using Cons by (auto simp: pending_update_if)
      have e2: "extends_default s ?s2"
        by (rule extends_quiet[OF assms sub, where es = "[]"]) simp_all
      have e3: "extends_default ?s2 (fst (voice_play (guild c) p ?s2))"
        using extends_queued[OF e2] pv by (rule extends_voice_play)
      obtain s3 r where vp: "voice_play (guild c) p ?s2 = (s3, r)"
        by (cases "voice_play (guild c) p ?s2")
      have e4: "extends_default s s3"
        using extends_trans[OF e2 e3] vp by simp
      show ?thesis
        using False Cons e4 extends_then_send[OF e4]
        by (cases r) (simp_all add: MusicCog_play_next_def Let_def vp)
    qed
  qed
qed

lemma extends_MusicCog_play_start:
  assumes "queued_default s"
  shows "extends_default s (fst (MusicCog_play_start c s))"
  using assms extends_MusicCog_play_next[OF assms] extends_refl[OF assms]
  by (auto simp: MusicCog_play_start_def split: option.splits)

lemma queued_default_enqueue:
  assumes "queued_default s" and "\<forall>t \<in> set ts. volume t = 0.5"
  shows "queued_default (enqueue g ts s)"
  using assms by (auto simp: queued_default_def pending_enqueue_if)

lemma extends_MusicCog_play:
  assumes "queued_default s"
  shows "extends_default s (MusicCog_play ytdl c query s)"
proof -
  let ?s0 = "MusicCog_get_queue c s"
  have e0: "extends_default s ?s0"
    by (rule extends_quiet[OF assms, where es = "[]"]) simp_all
  have "extends_default s (fst (MusicCog_play_body ytdl c query ?s0))"
  proof (cases "MusicCog_play_select c query ?s0")
    case (Inl e)
    then show ?thesis using e0 by (simp add: MusicCog_play_body_def)
  next
    case (Inr u)
    let ?s1 = "?s0\<lparr>log := log ?s0 @ [Extract u]\<rparr>"
    have e1: "extends_default s ?s1"
      by (rule extends_quiet[OF assms, where es = "[Extract u]"]) simp_all
    show ?thesis
    proof (cases "ytdl u")
      case (Inl e)
      then show ?thesis
        using e1 Inr by (simp add: MusicCog_play_body_def from_url_def Let_def)
    next
      case r: (Inr data)
      define ps where "ps = map YTDLSource (info_entries data)"
      let ?s2 = "enqueue (guild c) ps ?s1"
      have fu: "from_url ytdl u ?s0 = (?s1, Inr ps)"
        unfolding ps_def using r by (rule from_url_Inr)
      have d: "\<forall>t \<in> set ps. volume t = 0.5"
        by (simp add: ps_def YTDLSource_def)
      have q2: "queued_default ?s2"
        using extends_queued[OF e1] d by (rule queued_default_enqueue)
      have e2: "extends_default s ?s2"
        using q2 by (simp add: extends_default_def del: enqueue.simps)
      have st: "extends_default s (fst (MusicCog_play_start c (send (guild c) m ?s2)))" for m
        using extends_trans[OF extends_then_send[OF e2]
            extends_MusicCog_play_start[OF extends_queued[OF extends_then_send[OF e2]]]] .
      show ?thesis
      proof (cases "length ps > 1")
        case True
        then show ?thesis
          using st Inr by (simp add: MusicCog_play_body_def fu Let_def del: enqueue.simps str_nat.simps)
      next
        case False
        show ?thesis
        proof (cases ps)
          case Nil
          then show ?thesis
            using e2 Inr by (simp add: MusicCog_play_body_def fu Let_def del: str_nat.simps)
        next
          case (Cons p rest)
          have "MusicCog_play_body ytdl c query ?s0
              = MusicCog_play_start c (send (guild c) (''**Added to queue:** '' @ title p) ?s2)"
            using False Inr Cons
            by (simp add: MusicCog_play_body_def fu Let_def del: enqueue.simps str_nat.simps)
          then show ?thesis using st by simp
        qed
      qed
    qed
  qed
  moreover obtain s5 r5 where bd: "MusicCog_play_body ytdl c query ?s0 = (s5, r5)"
    by (cases "MusicCog_play_body ytdl c query ?s0")
  ultimately show ?thesis
    by (cases r5) (simp_all add: MusicCog_play_def bd extends_then_send)
qed


lemma extends_owner_only:
  assumes "queued_default s"
    and "\<And>s. queued_default s \<Longrightarrow> extends_default s (fst (body c s))"
  shows "extends_default s (invoke_owner_only body None c s)"
proof (cases "author c = owner_id s")
  case True
  obtain s1 r where b: "body c s = (s1, r)" by (cases "body c s")
  have e: "extends_default s s1" using assms(2)[OF assms(1)] b by simp
  have "extends_default s1 (s1\<lparr>log := log s1 @ [LoggedError err]\<rparr>)" for err
    by (rule extends_quiet[OF extends_queued[OF e], where es = "[LoggedError err]"]) simp_all
  then show ?thesis
    using True e extends_trans[OF e]
    by (cases r) (simp_all add: invoke_owner_only_def b on_error_def)
next
  case False
  have "extends_default s (s\<lparr>log := log s @ [LoggedError NotOwner]\<rparr>)"
    by (rule extends_quiet[OF assms(1), where es = "[LoggedError NotOwner]"]) simp_all
  then show ?thesis
    using False by (simp add: invoke_owner_only_def on_error_def)
qed

lemma extends_MusicCog_volume:
  assumes "queued_default s"
  shows "extends_default s (MusicCog_volume v c s)"
proof -
  have "extends_default s (send g m (s\<lparr>voice := w\<rparr>))" for g m w
    by (rule extends_quiet[OF assms, where es = "[Send g m]"]) simp_all
  then show ?thesis
    using extends_refl[OF assms]
    by (simp add: MusicCog_volume_def split: option.splits prod.splits)
qed

lemma extends_MusicCog_exec:
  assumes "queued_default s"
  shows "extends_default s (MusicCog_exec x s)"
proof (cases x)
  case (Join c)
  have "extends_default s (s\<lparr>voice := w\<rparr>)" for w
    by (rule extends_quiet[OF assms, where es = "[]"]) simp_all
  then show ?thesis
    using Join extends_send[OF assms] extends_refl[OF assms] by (simp add: MusicCog_join_def)
next
  case (Leave c)
  have "extends_default s (s\<lparr>voice := w\<rparr>)" for w
    by (rule extends_quiet[OF assms, where es = "[]"]) simp_all
  then show ?thesis
    using Leave extends_refl[OF assms] by (simp add: MusicCog_leave_def)
next
  case (Search provider c q)
  have "extends_default s (send g m (s\<lparr>search_results := w\<rparr>))" for g m w
    by (rule extends_quiet[OF assms, where es = "[Send g m]"]) simp_all
  then show ?thesis
    using Search extends_send[OF assms]
    by (simp add: MusicCog_search_def split: sum.splits)
next
  case (Play ytdl c q)
  then show ?thesis using extends_MusicCog_play[OF assms] by simp
next
  case (Volume v c)
  then show ?thesis using extends_MusicCog_volume[OF assms] by simp
next
  case (NowPlaying c)
  then show ?thesis
    using extends_send[OF assms]
    by (simp add: MusicCog_nowplaying_def split: option.splits prod.splits)
next
  case (QueueInfo c)
  have "extends_default s (send g m (MusicCog_get_queue c s))" for g m
    by (rule extends_quiet[OF assms, where es = "[Send g m]"]) simp_all
  then show ?thesis
    using QueueInfo by (simp add: MusicCog_queue_info_def Let_def)
next
  case (Skip c)
  have "extends_default s (send g m (s\<lparr>voice := w\<rparr>))" for g m w
    by (rule extends_quiet[OF assms, where es = "[Send g m]"]) simp_all
  then show ?thesis
    using Skip extends_refl[OF assms]
    by (simp add: MusicCog_skip_def split: option.splits)
next
  case (Stop c)
  let ?s1 = "MusicCog_get_queue c s"
  let ?s2 = "?s1\<lparr>song_queues := (song_queues ?s1)(guild c \<mapsto> [])\<rparr>"
  have sub: "set (pending ?s2 g) \<subseteq> set (pending s g)" for g
    by (simp add: pending_update_if)
  have "extends_default s (send g m ?s2)" for g m
    by (rule extends_quiet[OF assms, where es = "[Send g m]"]) (simp_all add: sub)
  moreover have "extends_default s (send g m (?s2\<lparr>voice := w\<rparr>))" for g m w
    by (rule extends_quiet[OF assms, where es = "[Send g m]"]) (simp_all add: sub)
  ultimately show ?thesis
    using Stop by (simp add: MusicCog_stop_def Let_def split: option.splits)
next
  case (SetToken tok c)
  have "extends_default s (send g m (s\<lparr>TOKEN := w\<rparr>))" if "queued_default s" for g m w s
    by (rule extends_quiet[OF that, where es = "[Send g m]"]) simp_all
  then show ?thesis
    using SetToken extends_owner_only[OF assms, of "MusicCog_set_token tok" c]
    by (simp add: MusicCog_cmd_set_token_def MusicCog_set_token_def)
next
  case (SetApiKey k c)
  have "extends_default s (send g m (s\<lparr>YOUTUBE_API_KEY := w\<rparr>))" if "queued_default s" for g m w s
    by (rule extends_quiet[OF that, where es = "[Send g m]"]) simp_all
  then show ?thesis
    using SetApiKey extends_owner_only[OF assms, of "MusicCog_set_api_key k" c]
    by (simp add: MusicCog_cmd_set_api_key_def MusicCog_set_api_key_def)
next
  case (TrackEnds g)
  have "extends_default s (track_ends g s)"
    by (rule extends_quiet[OF assms, where es = "[]"]) simp_all
  then show ?thesis using TrackEnds by simp
next
  case (AfterCallback c)
  then show ?thesis
    using extends_MusicCog_play_next[OF assms] by (simp add: MusicCog_after_callback_def)
qed

lemma extends_MusicCog_run:
  assumes "queued_default s"
  shows "extends_default s (MusicCog_run xs s)"
  using assms
proof (induction xs arbitrary: s)
  case Nil
  then show ?case by (simp add: extends_refl)
next
  case (Cons x xs)
  have e: "extends_default s (MusicCog_exec x s)"
    using Cons.prems by (rule extends_MusicCog_exec)
  from extends_trans[OF e Cons.IH[OF extends_queued[OF e]]] show ?case by simp
qed

lemma queued_default_start: "queued_default start"
  by (simp add: queued_default_def pending_def start_def)

lemma queued_default_MusicCog_run: "queued_default s \<Longrightarrow> queued_default (MusicCog_run xs s)"
  using extends_MusicCog_run extends_queued by blast

text \<open>
  Claim C9. Let every pending track have the default gain 0.5, as it has when the process
  starts and after every step. A \<^verbatim>\<open>volume\<close> command then leaves all queues as they
  are (it sets the gain of the voice client's current source only), and whatever steps
  follow it (commands, ends of streams, callbacks, further volume commands), every track
  started afterwards starts with the gain 0.5 and the pending tracks keep it.
\<close>

theorem volume_not_carried_over:
  assumes "queued_default s"
  shows "song_queues (MusicCog_volume v c s) = song_queues s
       \<and> queued_default (MusicCog_run xs (MusicCog_volume v c s))
       \<and> (\<forall>g. \<forall>t \<in> set (played g (drop (length (log s)) (log (MusicCog_run xs (MusicCog_volume v c s))))).
             volume t = 0.5)"
proof -
  have a: "song_queues (MusicCog_volume v c s) = song_queues s"
    by (simp add: MusicCog_volume_def split: option.splits prod.splits)
  have "extends_default s (MusicCog_run xs (MusicCog_volume v c s))"
    using extends_trans[OF extends_MusicCog_volume[OF assms]
        extends_MusicCog_run[OF extends_queued[OF extends_MusicCog_volume[OF assms]]]] .
  then obtain es where q: "queued_default (MusicCog_run xs (MusicCog_volume v c s))"
    and l: "log (MusicCog_run xs (MusicCog_volume v c s)) = log s @ es"
    and d: "\<forall>g. \<forall>t \<in> set (played g es). volume t = 0.5"
    by (auto simp: extends_default_def)
  from a q d show ?thesis by (simp add: l)
qed


theorem volume_not_carried_over_witness:
  "queued_default playingA
   \<and> song_queues (MusicCog_volume 80 ctx1 playingA) = song_queues playingA
   \<and> voice (MusicCog_volume 80 ctx1 playingA) (guild ctx1)
       = Some \<lparr>connected = True, player = Some ((YTDLSource entryA)\<lparr>volume := 0.8\<rparr>, Running)\<rparr>
   \<and> queued_default (MusicCog_run [TrackEnds 1, AfterCallback ctx1] (MusicCog_volume 80 ctx1 playingA))
   \<and> played (guild ctx1)
        (drop (length (log playingA))
           (log (MusicCog_run [TrackEnds 1, AfterCallback ctx1] (MusicCog_volume 80 ctx1 playingA))))
       = [YTDLSource entryB]
   \<and> volume (YTDLSource entryB) = 0.5"
proof -
  have h: "queued_default playingA"
    by (auto simp: queued_default_def pending_def playingA_def start_def YTDLSource_def
        split: if_splits)
  have v: "voice (MusicCog_volume 80 ctx1 playingA) (guild ctx1)
       = Some \<lparr>connected = True, player = Some ((YTDLSource entryA)\<lparr>volume := 0.8\<rparr>, Running)\<rparr>"
    by (simp add: MusicCog_volume_def playingA_def ctx1_def send_def)
  have p: "played (guild ctx1)
        (drop (length (log playingA))
           (log (MusicCog_run [TrackEnds 1, AfterCallback ctx1] (MusicCog_volume 80 ctx1 playingA))))
       = [YTDLSource entryB]"
    by (simp add: MusicCog_volume_def playingA_def start_def ctx1_def send_def track_ends_def
        MusicCog_after_callback_def MusicCog_play_next_def MusicCog_get_queue_def pending_def
        voice_play_def is_playing_def Let_def)
  show ?thesis
    using volume_not_carried_over [OF h, of 80 ctx1 "[TrackEnds 1, AfterCallback ctx1]"] h v p
    by (simp add: YTDLSource_def del: MusicCog_run.simps)
qed

end
